theory Spec2Isabelle
  imports Main "HOL-Library.Sublist" "HOL-Library.Monad_Syntax"
begin

section \<open>Python values and string primitives\<close>

text \<open>
  The three scripts exchange JSON documents, so every stage works on the values
  \<open>json.load\<close> produces: \<open>None\<close>, booleans, integers, floats, strings, lists and
  dictionaries. Floats are kept abstract (type \<open>'f\<close>); a dictionary is an association
  list that is read with \<open>map_of\<close>. A \<open>string\<close> is a list of characters, one
  \<open>char\<close> standing for one character of a Python \<open>str\<close>.
\<close>

datatype 'f pyval =
    PNone
  | PBool bool
  | PInt int
  | PFloat 'f
  | PStr string
  | PList "'f pyval list"
  | PDict "(string \<times> 'f pyval) list"

type_synonym 'f pydict = "(string \<times> 'f pyval) list"

text \<open>\<open>obj[key]\<close> with a string key: only a dictionary holding the key answers; every
  other case raises (\<open>KeyError\<close>, \<open>TypeError\<close>), which is \<open>None\<close> here.\<close>

fun subscript :: "'f pyval \<Rightarrow> string \<Rightarrow> 'f pyval option" where
  "subscript (PDict d) k = map_of d k"
| "subscript _ k = None"

text \<open>\<open>for x in obj\<close>: a list gives its elements, a dictionary its keys, a string its
  characters; nothing else can be iterated (nor has a \<open>len\<close>).\<close>

fun iterate :: "'f pyval \<Rightarrow> 'f pyval list option" where
  "iterate (PList xs) = Some xs"
| "iterate (PDict d) = Some (map (\<lambda>kv. PStr (fst kv)) d)"
| "iterate (PStr s) = Some (map (\<lambda>c. PStr [c]) s)"
| "iterate _ = None"

text \<open>\<open>str.isspace\<close> on the characters below 256, and \<open>str.strip()\<close>.\<close>

definition is_space :: "char \<Rightarrow> bool" where
  "is_space c =
     (let n = (of_char c :: nat)
      in (9 \<le> n \<and> n \<le> 13) \<or> (28 \<le> n \<and> n \<le> 32) \<or> n = 133 \<or> n = 160)"

definition py_strip :: "string \<Rightarrow> string" where
  "py_strip s = rev (dropWhile is_space (rev (dropWhile is_space s)))"

text \<open>\<open>s.find(c)\<close> and \<open>s.rfind(c)\<close> for a one-character needle: the index of the
  first (last) occurrence, \<open>-1\<close> when there is none.\<close>

fun py_find :: "string \<Rightarrow> char \<Rightarrow> int" where
  "py_find [] c = -1"
| "py_find (x # xs) c =
     (if x = c then 0
      else (let r = py_find xs c in if r < 0 then -1 else r + 1))"

definition py_rfind :: "string \<Rightarrow> char \<Rightarrow> int" where
  "py_rfind s c =
     (let r = py_find (rev s) c
      in if r < 0 then -1 else int (length s) - 1 - r)"

text \<open>\<open>s[a:b]\<close>: a negative bound counts from the end, both bounds are clamped.\<close>

definition py_slice :: "string \<Rightarrow> int \<Rightarrow> int \<Rightarrow> string" where
  "py_slice s a b =
     (let n = int (length s);
          a' = (if a < 0 then max (a + n) 0 else min a n);
          b' = (if b < 0 then max (b + n) 0 else min b n)
      in if a' < b' then take (nat (b' - a')) (drop (nat a') s) else [])"

text \<open>\<open>s.split(d)\<close> for a one-character separator: never empty, keeps empty segments.\<close>

fun py_split :: "string \<Rightarrow> char \<Rightarrow> string list" where
  "py_split [] d = [[]]"
| "py_split (c # cs) d =
     (if c = d then [] # py_split cs d
      else (case py_split cs d of
              w # ws \<Rightarrow> (c # w) # ws
            | [] \<Rightarrow> [[c]]))"

text \<open>How a call ends when no exception escapes it: it returns, or it leaves the
  interpreter through \<open>sys.exit\<close>. A script whose \<open>main\<close> returns ends with
  status 0.\<close>

datatype ending = Returned | SysExit nat

fun exit_status :: "ending \<Rightarrow> nat" where
  "exit_status Returned = 0"
| "exit_status (SysExit n) = n"

section \<open>Annotator: \<open>calculate_weights.py\<close>\<close>

text \<open>
  \<open>load_quiz_data\<close>, given the contents of the input file (\<open>None\<close> when it
  cannot be opened): every failure, also of the \<open>len\<close> in its progress line, is
  printed and ends the script with \<open>sys.exit(1)\<close>.
\<close>

definition load_quiz_data ::
  "(string \<Rightarrow> 'f pyval option) \<Rightarrow> string option \<Rightarrow> ending + 'f pyval" where
  "load_quiz_data loads json_file =
     (case json_file of
        None \<Rightarrow> Inl (SysExit 1)
      | Some text \<Rightarrow>
          (case loads text of
             None \<Rightarrow> Inl (SysExit 1)
           | Some data \<Rightarrow>
               (case iterate data of
                  None \<Rightarrow> Inl (SysExit 1)
                | Some items \<Rightarrow> Inr data)))"

text \<open>
  The prompt is a fixed text around the question, the answer and the token list; it is
  kept as these three parts. \<open>_create_prompt\<close> calls \<open>tokens.split\<close>, which only a
  string has.
\<close>

datatype 'f prompt = Prompt "'f pyval" "'f pyval" "string list"

fun create_prompt :: "'f pyval \<Rightarrow> 'f pyval \<Rightarrow> 'f pyval \<Rightarrow> 'f prompt option" where
  "create_prompt question answer (PStr tokens) =
     Some (Prompt question answer
             (filter (\<lambda>token. py_strip token \<noteq> []) (py_split tokens CHR ''|'')))"
| "create_prompt question answer _ = None"

text \<open>Lines 169 to 176: the text handed to \<open>json.loads\<close>.\<close>

definition json_content :: "string \<Rightarrow> string" where
  "json_content response_text =
     (if prefix ''```json'' response_text then
        (let json_start = py_find response_text CHR ''{'';
             json_end = py_rfind response_text CHR ''}'' + 1
         in py_slice response_text json_start json_end)
      else response_text)"

text \<open>
  \<open>calculate_attention_weights\<close>. The chat client and \<open>json.loads\<close> are the two
  collaborators: \<open>client mdl prompt\<close> is the content of the first choice (\<open>None\<close> when
  the call raises or there is no content), \<open>loads s\<close> is \<open>None\<close> on
  \<open>JSONDecodeError\<close>. Both handlers of the source return \<open>None\<close>, so every raise
  of the body is \<open>None\<close> here.
\<close>

definition calculate_attention_weights ::
  "(string \<Rightarrow> 'f prompt \<Rightarrow> string option) \<Rightarrow> (string \<Rightarrow> 'f pyval option) \<Rightarrow>
   'f pydict \<Rightarrow> string \<Rightarrow> 'f pydict option" where
  "calculate_attention_weights client loads quiz_item mdl =
     do {
       data_id \<leftarrow> map_of quiz_item ''data_id'';
       question \<leftarrow> map_of quiz_item ''question'';
       answer \<leftarrow> map_of quiz_item ''answer'';
       tokens \<leftarrow> map_of quiz_item ''tokens'';
       prompt \<leftarrow> create_prompt question answer tokens;
       content \<leftarrow> client mdl prompt;
       let response_text = py_strip content;
       weights_data \<leftarrow> loads (json_content response_text);
       token_count \<leftarrow> map_of quiz_item ''token_count'';
       token_weights \<leftarrow> subscript weights_data ''token_weights'';
       total_weight \<leftarrow> subscript weights_data ''total_weight'';
       Some [(''data_id'', data_id),
             (''question'', question),
             (''answer'', answer),
             (''tokens'', tokens),
             (''token_count'', token_count),
             (''attention_weights'', token_weights),
             (''total_weight'', total_weight),
             (''model'', PStr mdl),
             (''model_response'', PStr response_text)]
     }"

text \<open>
  \<open>process_all_quiz_data\<close>. What the loop does to the outside world is recorded as a
  trace: the progress line at the head of each iteration, each \<open>time.sleep\<close>, and the
  one call of \<open>_save_results\<close>. The client is indexed by the loop counter \<open>i\<close>
  (from 1), so that it may answer the same prompt differently at different times. The
  records are dictionaries, as the annotation of \<open>quiz_data\<close> says.
\<close>

datatype ('f, 'd) event =
    Progress nat nat
  | Sleep 'd
  | Save string "'f pydict list"

record ('f, 'd) batch_state =
  results :: "'f pydict list"
  trace :: "('f, 'd) event list"

text \<open>\<open>if result:\<close> holds for a dictionary that is not empty.\<close>

fun truthy :: "'f pydict option \<Rightarrow> bool" where
  "truthy None = False"
| "truthy (Some d) = (d \<noteq> [])"

fun process_loop ::
  "(nat \<Rightarrow> string \<Rightarrow> 'f prompt \<Rightarrow> string option) \<Rightarrow> (string \<Rightarrow> 'f pyval option) \<Rightarrow>
   string \<Rightarrow> 'd \<Rightarrow> nat \<Rightarrow> nat \<Rightarrow> 'f pydict list \<Rightarrow> ('f, 'd) batch_state \<Rightarrow>
   ('f, 'd) batch_state" where
  "process_loop client loads mdl delay total_items i [] st = st"
| "process_loop client loads mdl delay total_items i (quiz_item # rest) st =
     (let st0 = st\<lparr>trace := trace st @ [Progress i total_items]\<rparr>;
          result = calculate_attention_weights (client i) loads quiz_item mdl;
          st1 = (if truthy result
                 then st0\<lparr>results := results st0 @ [the result]\<rparr> else st0);
          st2 = (if i < total_items
                 then st1\<lparr>trace := trace st1 @ [Sleep delay]\<rparr> else st1)
      in process_loop client loads mdl delay total_items (Suc i) rest st2)"

definition process_all_quiz_data ::
  "(nat \<Rightarrow> string \<Rightarrow> 'f prompt \<Rightarrow> string option) \<Rightarrow> (string \<Rightarrow> 'f pyval option) \<Rightarrow>
   'f pydict list \<Rightarrow> string \<Rightarrow> string \<Rightarrow> 'd \<Rightarrow> ('f, 'd) batch_state" where
  "process_all_quiz_data client loads quiz_data output_file mdl delay =
     (let st = process_loop client loads mdl delay (length quiz_data) 1 quiz_data
                 \<lparr>results = [], trace = []\<rparr>
      in st\<lparr>trace := trace st @ [Save output_file (results st)]\<rparr>)"

text \<open>
  Two descriptions of the loop used to state its properties: the records it keeps,
  and the progress and sleep events of \<open>n\<close> iterations starting at counter \<open>i\<close>.
\<close>

fun accepted ::
  "(nat \<Rightarrow> string \<Rightarrow> 'f prompt \<Rightarrow> string option) \<Rightarrow> (string \<Rightarrow> 'f pyval option) \<Rightarrow>
   string \<Rightarrow> nat \<Rightarrow> 'f pydict list \<Rightarrow> 'f pydict list" where
  "accepted client loads mdl i [] = []"
| "accepted client loads mdl i (quiz_item # rest) =
     (case calculate_attention_weights (client i) loads quiz_item mdl of
        None \<Rightarrow> [] | Some r \<Rightarrow> [r]) @ accepted client loads mdl (Suc i) rest"

fun steps :: "'d \<Rightarrow> nat \<Rightarrow> nat \<Rightarrow> nat \<Rightarrow> ('f, 'd) event list" where
  "steps delay total_items i 0 = []"
| "steps delay total_items i (Suc n) =
     Progress i total_items # (if i < total_items then [Sleep delay] else [])
       @ steps delay total_items (Suc i) n"

fun is_sleep :: "('f, 'd) event \<Rightarrow> bool" where
  "is_sleep (Sleep d) = True"
| "is_sleep _ = False"

fun is_save :: "('f, 'd) event \<Rightarrow> bool" where
  "is_save (Save f rs) = True"
| "is_save _ = False"

text \<open>The five fields a result copies from its quiz record.\<close>

definition source_fields :: "'f pydict \<Rightarrow> 'f pyval option list" where
  "source_fields d =
     map (map_of d) [''data_id'', ''question'', ''answer'', ''tokens'', ''token_count'']"

text \<open>A result without the raw response it keeps for auditing.\<close>

definition without_response :: "'f pydict \<Rightarrow> 'f pydict" where
  "without_response d = filter (\<lambda>kv. fst kv \<noteq> ''model_response'') d"

section \<open>Flattener: \<open>convert_to_csv.py\<close>\<close>

text \<open>
  \<open>f"{w:.6f}"\<close>: a float is printed by \<open>fmt\<close>; an integer or a boolean is first
  converted to a float (\<open>to_float\<close>, \<open>None\<close> on \<open>OverflowError\<close>); every other
  value raises.
\<close>

fun format_6f :: "('f \<Rightarrow> string) \<Rightarrow> (int \<Rightarrow> 'f option) \<Rightarrow> 'f pyval \<Rightarrow> string option" where
  "format_6f fmt to_float (PFloat x) = Some (fmt x)"
| "format_6f fmt to_float (PInt n) = map_option fmt (to_float n)"
| "format_6f fmt to_float (PBool b) = map_option fmt (to_float (if b then 1 else 0))"
| "format_6f fmt to_float _ = None"

text \<open>Lines 57 to 59: the token and the formatted weight of every entry.\<close>

fun collect ::
  "('f \<Rightarrow> string) \<Rightarrow> (int \<Rightarrow> 'f option) \<Rightarrow> 'f pyval list \<Rightarrow>
   ('f pyval list \<times> string list) option" where
  "collect fmt to_float [] = Some ([], [])"
| "collect fmt to_float (token_data # rest) =
     do {
       token \<leftarrow> subscript token_data ''token'';
       weight \<leftarrow> subscript token_data ''weight'';
       w \<leftarrow> format_6f fmt to_float weight;
       (tokens, weights) \<leftarrow> collect fmt to_float rest;
       Some (token # tokens, w # weights)
     }"

text \<open>\<open>sep.join(xs)\<close>; it raises unless every element is a string.\<close>

fun py_join :: "string \<Rightarrow> string list \<Rightarrow> string" where
  "py_join sep [] = []"
| "py_join sep [x] = x"
| "py_join sep (x # y # ys) = x @ sep @ py_join sep (y # ys)"

fun strings_of :: "'f pyval list \<Rightarrow> string list option" where
  "strings_of [] = Some []"
| "strings_of (PStr s # rest) = map_option ((#) s) (strings_of rest)"
| "strings_of (_ # rest) = None"

text \<open>Lines 48 to 66: the row of one record, \<open>None\<close> when building it raises.\<close>

definition make_row ::
  "('f \<Rightarrow> string) \<Rightarrow> (int \<Rightarrow> 'f option) \<Rightarrow> 'f pyval \<Rightarrow> 'f pyval list option" where
  "make_row fmt to_float item =
     do {
       data_id \<leftarrow> subscript item ''data_id'';
       question \<leftarrow> subscript item ''question'';
       answer \<leftarrow> subscript item ''answer'';
       token_count \<leftarrow> subscript item ''token_count'';
       attention_weights \<leftarrow> subscript item ''attention_weights'';
       entries \<leftarrow> iterate attention_weights;
       (tokens, weights) \<leftarrow> collect fmt to_float entries;
       token_strings \<leftarrow> strings_of tokens;
       let tokens_str = ''|'' @ py_join ''|'' token_strings @ ''|'';
           weights_str = ''|'' @ py_join ''|'' weights @ ''|''
       in Some [data_id, question, answer, PStr tokens_str, PStr weights_str, token_count]
     }"

text \<open>The rows written before the loop stops: at the end of the data or at the first
  record whose row raises (the handler then closes the file with what it holds).\<close>

fun rows_written ::
  "('f \<Rightarrow> string) \<Rightarrow> (int \<Rightarrow> 'f option) \<Rightarrow> 'f pyval list \<Rightarrow> 'f pyval list list" where
  "rows_written fmt to_float [] = []"
| "rows_written fmt to_float (item # rest) =
     (case make_row fmt to_float item of
        None \<Rightarrow> []
      | Some row \<Rightarrow> row # rows_written fmt to_float rest)"

definition header :: "'f pyval list" where
  "header = map PStr [''data_id'', ''question'', ''answer'', ''tokens'', ''weights'',
                      ''token_count'']"

text \<open>
  The files are a map from paths to contents. \<open>convert_to_csv\<close> reads and parses
  the input before it opens the output, so a missing or unparsable input, or data
  without a length, leaves the files as they are. \<open>writerow\<close> is the line
  \<open>csv.writer\<close> produces for a row.
\<close>

type_synonym files = "string \<rightharpoonup> string"

definition convert_to_csv ::
  "(string \<Rightarrow> 'f pyval option) \<Rightarrow> ('f \<Rightarrow> string) \<Rightarrow> (int \<Rightarrow> 'f option) \<Rightarrow>
   ('f pyval list \<Rightarrow> string) \<Rightarrow> files \<Rightarrow> string \<Rightarrow> string \<Rightarrow> bool \<Rightarrow> files" where
  "convert_to_csv loads fmt to_float writerow fs input_json output_file with_header =
     (case fs input_json of
        None \<Rightarrow> fs
      | Some text \<Rightarrow>
          (case loads text of
             None \<Rightarrow> fs
           | Some data \<Rightarrow>
               (case iterate data of
                  None \<Rightarrow> fs
                | Some items \<Rightarrow>
                    fs(output_file \<mapsto>
                         (if with_header then writerow header else [])
                         @ concat (map writerow (rows_written fmt to_float items))))))"

text \<open>\<open>main\<close> writes the file with the header row, then the one without.\<close>

definition flattener_main ::
  "(string \<Rightarrow> 'f pyval option) \<Rightarrow> ('f \<Rightarrow> string) \<Rightarrow> (int \<Rightarrow> 'f option) \<Rightarrow>
   ('f pyval list \<Rightarrow> string) \<Rightarrow> files \<Rightarrow> string \<Rightarrow> string \<Rightarrow> string \<Rightarrow> files" where
  "flattener_main loads fmt to_float writerow fs input_json output_with_header
       output_no_header =
     (let fs1 = convert_to_csv loads fmt to_float writerow fs input_json
                  output_with_header True
      in convert_to_csv loads fmt to_float writerow fs1 input_json output_no_header False)"

text \<open>
  The number of delimiter-split segments of a field as \<open>verify_format\<close> counts it
  (lines 119 and 120): the number of \<open>|\<close> less one.
\<close>

definition segment_count :: "string \<Rightarrow> int" where
  "segment_count s = int (length (filter (\<lambda>c. c = CHR ''|'') s)) - 1"

text \<open>
  \<open>int(s)\<close> on a string: white space around it is dropped, then come an optional
  sign and decimal digits, which single underscores may separate; anything else raises
  \<open>ValueError\<close>. (The limit newer interpreters put on the length of such a text
  is left out.)
\<close>

definition is_digit :: "char \<Rightarrow> bool" where
  "is_digit c = (let n = (of_char c :: nat) in 48 \<le> n \<and> n \<le> 57)"

definition digit_value :: "char \<Rightarrow> nat" where
  "digit_value c = of_char c - 48"

fun digits_tail :: "nat \<Rightarrow> string \<Rightarrow> nat option" where
  "digits_tail acc [] = Some acc"
| "digits_tail acc [c] = (if is_digit c then Some (10 * acc + digit_value c) else None)"
| "digits_tail acc (c # d # cs) =
     (if is_digit c then digits_tail (10 * acc + digit_value c) (d # cs)
      else if c = CHR ''_'' \<and> is_digit d then digits_tail (10 * acc + digit_value d) cs
      else None)"

fun unsigned :: "string \<Rightarrow> nat option" where
  "unsigned [] = None"
| "unsigned (c # cs) = (if is_digit c then digits_tail (digit_value c) cs else None)"

definition py_int :: "string \<Rightarrow> int option" where
  "py_int s =
     (case py_strip s of
        [] \<Rightarrow> None
      | c # cs \<Rightarrow>
          if c = CHR ''-'' then map_option (\<lambda>n. - int n) (unsigned cs)
          else if c = CHR ''+'' then map_option int (unsigned cs)
          else map_option int (unsigned (c # cs)))"

text \<open>
  \<open>verify_format\<close>, given the rows \<open>csv.reader\<close> reads back from the output
  file, each a list of texts. It looks at the first data row only: a row of fewer
  than six fields, or a count that \<open>int\<close> cannot read, raises inside the function,
  which prints the error and no verdict; otherwise it prints \<open>OK\<close> or \<open>NG\<close>.
  Nothing is checked in a file without data rows, and nothing is raised to the caller.
\<close>

datatype verdict = CountsOK | CountsNG | CheckRaised

definition verify_format :: "string list list \<Rightarrow> bool \<Rightarrow> verdict option" where
  "verify_format converted_data with_header =
     (let data_rows = (if with_header then drop 1 converted_data else converted_data)
      in case data_rows of
           [] \<Rightarrow> None
         | sample_row # _ \<Rightarrow>
             Some (if length sample_row < 6 then CheckRaised
                   else
                     (let tokens_count = segment_count (sample_row ! 3);
                          weights_count = segment_count (sample_row ! 4)
                      in case py_int (sample_row ! 5) of
                           None \<Rightarrow> CheckRaised
                         | Some declared_count \<Rightarrow>
                             if tokens_count = weights_count
                                \<and> weights_count = declared_count
                             then CountsOK else CountsNG)))"

text \<open>The entries the inner loop of a record runs over, and whether no token and no
  formatted weight among them holds the delimiter.\<close>

definition entries_of :: "'f pyval \<Rightarrow> 'f pyval list option" where
  "entries_of item =
     (case subscript item ''attention_weights'' of
        None \<Rightarrow> None
      | Some attention_weights \<Rightarrow> iterate attention_weights)"

fun delimiter_free ::
  "('f \<Rightarrow> string) \<Rightarrow> (int \<Rightarrow> 'f option) \<Rightarrow> 'f pyval \<Rightarrow> bool" where
  "delimiter_free fmt to_float token_data =
     ((case subscript token_data ''token'' of
         Some (PStr t) \<Rightarrow> CHR ''|'' \<notin> set t
       | _ \<Rightarrow> True)
      \<and> (case subscript token_data ''weight'' of
           None \<Rightarrow> True
         | Some weight \<Rightarrow>
             (case format_6f fmt to_float weight of
                None \<Rightarrow> True
              | Some w \<Rightarrow> CHR ''|'' \<notin> set w)))"

section \<open>Selector: \<open>extract_questions.py\<close>\<close>

text \<open>A data frame: its column names and its rows, each row a dictionary from column
  names to cells.\<close>

record 'f table =
  columns :: "string list"
  rows :: "'f pydict list"

datatype error =
    FileNotFoundError
  | EmptyDataError
  | MissingColumns "string list"
  | CategoriesNotUnique
  | OtherError

datatype message =
    Warning "int list"
  | Failure error
  | Extracted nat

text \<open>What one invocation leaves behind: the files it wrote (the path and the
  document handed to the serialiser), the lines it printed, and how it ended.\<close>

datatype 'f document = JsonArray "'f pydict list" | CsvTable "'f pydict list"

record 'f run =
  written :: "(string \<times> 'f document) list"
  console :: "message list"
  ending :: ending

definition required_columns :: "string list" where
  "required_columns = [''data_id'', ''question'', ''answer'', ''tokens'', ''token_count'']"

definition row_id :: "'f pydict \<Rightarrow> int option" where
  "row_id r = (case map_of r ''data_id'' of Some (PInt i) \<Rightarrow> Some i | _ \<Rightarrow> None)"

text \<open>\<open>isin\<close>, and the code a categorical gives a value: its position among the
  categories; a value outside them sorts last.\<close>

fun isin :: "int option \<Rightarrow> int list \<Rightarrow> bool" where
  "isin None ids = False"
| "isin (Some i) ids = (i \<in> set ids)"

fun index_of :: "'a list \<Rightarrow> 'a \<Rightarrow> nat" where
  "index_of [] x = 0"
| "index_of (y # ys) x = (if x = y then 0 else Suc (index_of ys x))"

fun category_code :: "int list \<Rightarrow> 'f pydict \<Rightarrow> nat" where
  "category_code categories r =
     (case row_id r of None \<Rightarrow> length categories | Some i \<Rightarrow> index_of categories i)"

text \<open>\<open>df[required_columns]\<close> on one row.\<close>

definition project :: "'f pydict \<Rightarrow> 'f pydict" where
  "project r = List.map_filter (\<lambda>col. map_option (Pair col) (map_of r col)) required_columns"

text \<open>
  Lines 39 to 70. \<open>pd.Categorical\<close> raises \<open>ValueError\<close> when its categories
  repeat. \<open>sort_values\<close> orders the rows by their codes; rows with equal codes
  (a repeated identifier in the source) are kept here in source order.
\<close>

definition select_rows ::
  "'f table \<Rightarrow> int list option \<Rightarrow> error + ('f pydict list \<times> message list)" where
  "select_rows df target_data_ids =
     (let missing_columns = filter (\<lambda>col. col \<notin> set (columns df)) required_columns
      in if missing_columns \<noteq> [] then Inl (MissingColumns missing_columns)
         else (case target_data_ids of
                 None \<Rightarrow> Inr (map project (rows df), [])
               | Some ids \<Rightarrow>
                   if ids = [] then Inr (map project (rows df), [])
                   else
                     (let filtered_df = filter (\<lambda>r. isin (row_id r) ids) (rows df)
                      in if \<not> distinct ids then Inl CategoriesNotUnique
                         else
                           (let sorted_df = sort_key (category_code ids) filtered_df;
                                found_ids = List.map_filter row_id sorted_df;
                                missing_ids = filter (\<lambda>data_id. data_id \<notin> set found_ids) ids
                            in Inr (map project sorted_df,
                                    if missing_ids \<noteq> [] then [Warning missing_ids]
                                    else [])))))"

fun py_lower :: "string \<Rightarrow> string" where
  "py_lower s =
     map (\<lambda>c. let n = (of_char c :: nat)
              in if 65 \<le> n \<and> n \<le> 90 then char_of (n + 32) else c) s"

text \<open>
  \<open>extract_csv_data\<close>, given what \<open>pd.read_csv\<close> returns or raises for the input
  file. Every exception is caught and printed, after which the function returns; the
  script has no \<open>sys.exit\<close>. The output file is opened only after the selection.
\<close>

definition extract_csv_data ::
  "error + 'f table \<Rightarrow> string \<Rightarrow> int list option \<Rightarrow> string \<Rightarrow> 'f run" where
  "extract_csv_data read_csv output_file target_data_ids output_format =
     (case read_csv of
        Inl e \<Rightarrow> \<lparr>written = [], console = [Failure e], ending = Returned\<rparr>
      | Inr df \<Rightarrow>
          (case select_rows df target_data_ids of
             Inl e \<Rightarrow> \<lparr>written = [], console = [Failure e], ending = Returned\<rparr>
           | Inr (extracted_df, warnings) \<Rightarrow>
               \<lparr>written = [(output_file,
                             if py_lower output_format = ''json''
                             then JsonArray extracted_df else CsvTable extracted_df)],
                console = warnings @ [Extracted (length extracted_df)],
                ending = Returned\<rparr>))"

text \<open>\<open>main\<close>: the eighteen identifiers of the script, JSON output.\<close>

definition main_target_data_ids :: "int list" where
  "main_target_data_ids =
     [2201, 141, 2017, 1320, 1055, 495, 1825, 965, 1356, 1613, 667, 2210, 32, 1725, 326,
      1524, 1342, 84]"

definition selector_main :: "error + 'f table \<Rightarrow> string \<Rightarrow> 'f run" where
  "selector_main read_csv output_file =
     extract_csv_data read_csv output_file (Some main_target_data_ids) ''json''"

text \<open>The identifiers of a target list that no row of the source carries.\<close>

definition absent_ids :: "'f table \<Rightarrow> int list \<Rightarrow> int list" where
  "absent_ids df ids = filter (\<lambda>i. Some i \<notin> set (map row_id (rows df))) ids"

definition present_ids :: "'f table \<Rightarrow> int list \<Rightarrow> int list" where
  "present_ids df ids = filter (\<lambda>i. Some i \<in> set (map row_id (rows df))) ids"

section \<open>Sample data\<close>

text \<open>
  The data of the examples below. A float is given in millionths there, which is what
  six decimals print: \<open>PFloat 100000\<close> is \<open>0.10\<close>. \<open>sample_loads\<close> is
  \<open>json.loads\<close> on the texts the examples use: the two JSON documents are mapped to
  their values, the other texts (a refusal in plain words, a text that starts with
  backquotes) are not JSON and raise \<open>JSONDecodeError\<close>.
\<close>

definition quoted :: "string \<Rightarrow> string" where
  "quoted s = CHR 0x22 # s @ [CHR 0x22]"

definition sample_entries :: string where
  "sample_entries =
     ''{'' @ quoted ''token'' @ '':'' @ quoted ''a'' @ '','' @ quoted ''weight'' @ '':0.10},''
     @ ''{'' @ quoted ''token'' @ '':'' @ quoted ''b'' @ '','' @ quoted ''weight'' @ '':0.30},''
     @ ''{'' @ quoted ''token'' @ '':'' @ quoted ''c'' @ '','' @ quoted ''weight'' @ '':0.60}''"

definition sample_body :: string where
  "sample_body =
     quoted ''token_weights'' @ '':['' @ sample_entries
     @ ''],'' @ quoted ''total_weight'' @ '':1.00''"

definition sample_json :: string where
  "sample_json = CHR ''{'' # sample_body @ ''}''"

text \<open>The same document inside a fence tagged \<open>json\<close>, and inside a bare fence.\<close>

definition fenced_json :: string where
  "fenced_json = ''```json'' @ [CHR 0x0A] @ sample_json @ [CHR 0x0A] @ ''```''"

definition plain_fenced :: string where
  "plain_fenced = ''```'' @ [CHR 0x0A] @ sample_json @ [CHR 0x0A] @ ''```''"

definition sample_weights :: "int pyval" where
  "sample_weights =
     PDict [(''token_weights'',
             PList [PDict [(''token'', PStr ''a''), (''weight'', PFloat 100000)],
                    PDict [(''token'', PStr ''b''), (''weight'', PFloat 300000)],
                    PDict [(''token'', PStr ''c''), (''weight'', PFloat 600000)]]),
            (''total_weight'', PFloat 1000000)]"

definition skewed_json :: string where
  "skewed_json =
     ''{'' @ quoted ''token_weights'' @ '':[''
     @ ''{'' @ quoted ''token'' @ '':'' @ quoted ''a'' @ '','' @ quoted ''weight'' @ '':5}''
     @ ''],'' @ quoted ''total_weight'' @ '':7}''"

definition skewed_weights :: "int pyval" where
  "skewed_weights =
     PDict [(''token_weights'',
             PList [PDict [(''token'', PStr ''a''), (''weight'', PInt 5)]]),
            (''total_weight'', PInt 7)]"

definition sample_loads :: "string \<Rightarrow> int pyval option" where
  "sample_loads s =
     (if s = sample_json then Some sample_weights
      else if s = skewed_json then Some skewed_weights
      else None)"

definition sample_record :: "int \<Rightarrow> int pydict" where
  "sample_record i =
     [(''data_id'', PInt i), (''question'', PStr ''Q''), (''answer'', PStr ''A''),
      (''tokens'', PStr ''|a|b|c|''), (''token_count'', PInt 3)]"

definition sample_prompt :: "int prompt" where
  "sample_prompt = Prompt (PStr ''Q'') (PStr ''A'') [''a'', ''b'', ''c'']"

text \<open>A client that answers the second call of a batch in plain words.\<close>

definition sample_client :: "nat \<Rightarrow> string \<Rightarrow> int prompt \<Rightarrow> string option" where
  "sample_client i mdl prompt = Some (if i = 2 then ''I cannot answer'' else sample_json)"

definition sample_result :: "int \<Rightarrow> int pydict" where
  "sample_result i =
     [(''data_id'', PInt i), (''question'', PStr ''Q''), (''answer'', PStr ''A''),
      (''tokens'', PStr ''|a|b|c|''), (''token_count'', PInt 3),
      (''attention_weights'',
       PList [PDict [(''token'', PStr ''a''), (''weight'', PFloat 100000)],
              PDict [(''token'', PStr ''b''), (''weight'', PFloat 300000)],
              PDict [(''token'', PStr ''c''), (''weight'', PFloat 600000)]]),
      (''total_weight'', PFloat 1000000),
      (''model'', PStr ''gpt-4.1''),
      (''model_response'', PStr sample_json)]"

text \<open>
  The record the Annotator accepts for the reply \<open>skewed_json\<close>: one weight of 5
  for a declared count of 3.
\<close>

definition skewed_result :: "int pydict" where
  "skewed_result =
     [(''data_id'', PInt 1), (''question'', PStr ''Q''), (''answer'', PStr ''A''),
      (''tokens'', PStr ''|a|b|c|''), (''token_count'', PInt 3),
      (''attention_weights'',
       PList [PDict [(''token'', PStr ''a''), (''weight'', PInt 5)]]),
      (''total_weight'', PInt 7),
      (''model'', PStr ''gpt-4.1''),
      (''model_response'', PStr skewed_json)]"

text \<open>
  Six decimals of a float given in millionths, and the float of an integer (exact for
  the integers of the examples).
\<close>

definition digit_char :: "nat \<Rightarrow> char" where
  "digit_char n = ''0123456789'' ! (n mod 10)"

fun decimal :: "nat \<Rightarrow> string" where
  "decimal n =
     (if n < 10 then [digit_char n]
      else decimal (n div 10) @ [digit_char n])"

declare decimal.simps [simp del]

definition fmt_millionths :: "int \<Rightarrow> string" where
  "fmt_millionths x =
     (if x < 0 then ''-'' else [])
     @ decimal (nat \<bar>x\<bar> div 1000000) @ ''.''
     @ map (\<lambda>k. digit_char (nat \<bar>x\<bar> div 10 ^ k)) [5, 4, 3, 2, 1, 0]"

definition micro_of_int :: "int \<Rightarrow> int option" where
  "micro_of_int n = Some (n * 1000000)"

text \<open>The line \<open>csv.writer\<close> writes for a row of integers and of strings that need
  no quoting, which are the fields of the examples.\<close>

fun csv_field :: "int pyval \<Rightarrow> string" where
  "csv_field (PInt n) = (if n < 0 then ''-'' else []) @ decimal (nat \<bar>n\<bar>)"
| "csv_field (PStr s) = s"
| "csv_field _ = []"

definition sample_writerow :: "int pyval list \<Rightarrow> string" where
  "sample_writerow row = py_join '','' (map csv_field row) @ [CHR 0x0D, CHR 0x0A]"

text \<open>An output file of the Annotator holding one record (without the fields the
  Flattener does not read), and \<open>json.load\<close> on it.\<close>

definition sample_annotated_json :: string where
  "sample_annotated_json =
     ''[{'' @ quoted ''data_id'' @ '':1,''
     @ quoted ''question'' @ '':'' @ quoted ''Q'' @ '',''
     @ quoted ''answer'' @ '':'' @ quoted ''A'' @ '',''
     @ quoted ''token_count'' @ '':3,''
     @ quoted ''attention_weights'' @ '':['' @ sample_entries @ '']}]''"

definition sample_annotated :: "int pyval" where
  "sample_annotated =
     PDict [(''data_id'', PInt 1), (''question'', PStr ''Q''), (''answer'', PStr ''A''),
            (''token_count'', PInt 3),
            (''attention_weights'',
             PList [PDict [(''token'', PStr ''a''), (''weight'', PFloat 100000)],
                    PDict [(''token'', PStr ''b''), (''weight'', PFloat 300000)],
                    PDict [(''token'', PStr ''c''), (''weight'', PFloat 600000)]])]"

definition sample_load :: "string \<Rightarrow> int pyval option" where
  "sample_load text = (if text = sample_annotated_json then Some (PList [sample_annotated])
                       else None)"

definition sample_files :: files where
  "sample_files = [''weights.json'' \<mapsto> sample_annotated_json]"

definition sample_row :: "int pyval list" where
  "sample_row = [PInt 1, PStr ''Q'', PStr ''A'', PStr ''|a|b|c|'',
                 PStr ''|0.100000|0.300000|0.600000|'', PInt 3]"

text \<open>A source table of four rows with a column the Selector does not need, and a
  table that lacks two of the required columns.\<close>

definition source_row :: "int \<Rightarrow> string \<Rightarrow> int pydict" where
  "source_row i q =
     [(''data_id'', PInt i), (''source'', PStr ''abc''), (''question'', PStr q),
      (''answer'', PStr ''A''), (''tokens'', PStr ''|a|b|c|''), (''token_count'', PInt 3)]"

definition selected_row :: "int \<Rightarrow> string \<Rightarrow> int pydict" where
  "selected_row i q =
     [(''data_id'', PInt i), (''question'', PStr q), (''answer'', PStr ''A''),
      (''tokens'', PStr ''|a|b|c|''), (''token_count'', PInt 3)]"

definition sample_table :: "int table" where
  "sample_table =
     \<lparr>columns = [''data_id'', ''source'', ''question'', ''answer'', ''tokens'',
                  ''token_count''],
      rows = [source_row 32 ''Q1'', source_row 141 ''Q2'', source_row 2201 ''Q3'',
              source_row 84 ''Q4'']\<rparr>"

definition narrow_table :: "int table" where
  "narrow_table =
     \<lparr>columns = [''data_id'', ''question'', ''answer''],
      rows = [[(''data_id'', PInt 32), (''question'', PStr ''Q1''),
               (''answer'', PStr ''A'')]]\<rparr>"

section \<open>Properties of the Annotator\<close>

subsection \<open>String primitives\<close>

lemma py_find_first: "c \<notin> set xs \<Longrightarrow> py_find (xs @ c # ys) c = int (length xs)"
  by (induction xs) (auto simp: Let_def)

lemma py_rfind_last: "c \<notin> set ys \<Longrightarrow> py_rfind (xs @ c # ys) c = int (length xs)"
proof -
  assume "c \<notin> set ys"
  then have "py_find (rev ys @ c # rev xs) c = int (length (rev ys))"
    by (intro py_find_first) simp
  then show ?thesis by (simp add: py_rfind_def)
qed

lemma py_slice_middle: "py_slice (xs @ ys @ zs) (int (length xs)) (int (length xs + length ys)) = ys"
proof -
  let ?a = "int (length xs)" and ?b = "int (length xs + length ys)"
  let ?n = "int (length (xs @ ys @ zs))"
  have a: "(if ?a < 0 then max (?a + ?n) 0 else min ?a ?n) = ?a" by simp
  have b: "(if ?b < 0 then max (?b + ?n) 0 else min ?b ?n) = ?b" by simp
  have len: "nat (?b - ?a) = length ys" by simp
  have "py_slice (xs @ ys @ zs) ?a ?b
      = (if ?a < ?b then take (length ys) (drop (length xs) (xs @ ys @ zs)) else [])"
    unfolding py_slice_def Let_def a b len by simp
  then show ?thesis by (cases ys) simp_all
qed

lemma dropWhile_stop: "\<not> P x \<Longrightarrow> dropWhile P (xs @ x # ys) = dropWhile P xs @ x # ys"
  by (induction xs) auto

lemma py_strip_between:
  assumes "\<not> is_space a" "\<not> is_space z"
  shows "py_strip (a # xs @ z # post) = a # xs @ z # rev (dropWhile is_space (rev post))"
proof -
  have "rev (a # xs @ z # post) = rev post @ z # rev (a # xs)" by simp
  moreover have "dropWhile is_space (rev post @ z # rev (a # xs))
      = dropWhile is_space (rev post) @ z # rev (a # xs)"
    using assms(2) by (rule dropWhile_stop)
  ultimately have "dropWhile is_space (rev (a # xs @ z # post))
      = dropWhile is_space (rev post) @ z # rev (a # xs)"
    by (simp only:)
  then show ?thesis using assms(1) by (simp add: py_strip_def)
qed

lemma not_space_fence: "\<not> is_space (CHR 0x60)" "\<not> is_space CHR ''{''" "\<not> is_space CHR ''}''"
  by (simp_all add: is_space_def)

lemma json_content_fenced:
  assumes pre: "CHR ''{'' \<notin> set pre" and post: "CHR ''}'' \<notin> set post"
  shows "json_content (py_strip (''```json'' @ pre @ CHR ''{'' # body @ CHR ''}'' # post))
      = CHR ''{'' # body @ ''}''"
proof -
  let ?post = "rev (dropWhile is_space (rev post))"
  let ?head = "''```json'' @ pre"
  let ?J = "CHR ''{'' # body @ ''}''"
  have strip: "py_strip (''```json'' @ pre @ CHR ''{'' # body @ CHR ''}'' # post)
      = ?head @ ?J @ ?post"
    using py_strip_between [of "CHR 0x60" "CHR ''}''" "''``json'' @ pre @ CHR ''{'' # body" post]
    by (simp add: not_space_fence)
  have "set ?post \<subseteq> set post"
    by (auto dest: set_dropWhileD)
  with post have post': "CHR ''}'' \<notin> set ?post" by blast
  have head: "CHR ''{'' \<notin> set ?head" using pre by simp
  have start: "py_find (?head @ ?J @ ?post) CHR ''{'' = int (length ?head)"
    using py_find_first [OF head, of "body @ ''}'' @ ?post"] by simp
  have stop: "py_rfind (?head @ ?J @ ?post) CHR ''}'' = int (length (?head @ CHR ''{'' # body))"
    using py_rfind_last [OF post', of "?head @ CHR ''{'' # body"] by simp
  have stop': "py_rfind (?head @ ?J @ ?post) CHR ''}'' + 1 = int (length ?head + length ?J)"
    unfolding stop by simp
  have pref: "prefix ''```json'' (?head @ ?J @ ?post)" by simp
  show ?thesis
    unfolding strip json_content_def
    by (simp only: pref if_True Let_def start stop' py_slice_middle)
qed

lemma json_content_bare:
  "json_content (py_strip (CHR ''{'' # body @ ''}'')) = CHR ''{'' # body @ ''}''"
proof -
  have "py_strip (CHR ''{'' # body @ CHR ''}'' # []) = CHR ''{'' # body @ ''}''"
    using py_strip_between [of "CHR ''{''" "CHR ''}''" body "[]"]
    by (simp add: not_space_fence)
  then show ?thesis by (simp add: json_content_def)
qed

subsection \<open>The sample data, evaluated\<close>

lemma strip_sample_json: "py_strip sample_json = sample_json"
  by (simp add: py_strip_def sample_json_def sample_body_def sample_entries_def quoted_def is_space_def)

lemma json_content_sample_json: "json_content sample_json = sample_json"
  by (simp add: json_content_def sample_json_def)

lemma strip_skewed_json: "py_strip skewed_json = skewed_json"
  by (simp add: py_strip_def skewed_json_def quoted_def is_space_def)

lemma json_content_skewed_json: "json_content skewed_json = skewed_json"
  by (simp add: json_content_def skewed_json_def quoted_def)

lemma skewed_not_sample: "skewed_json \<noteq> sample_json"
  by (simp add: sample_json_def sample_body_def sample_entries_def skewed_json_def quoted_def)

lemma create_sample_prompt:
  "create_prompt (PStr ''Q'') (PStr ''A'') (PStr ''|a|b|c|'') = Some sample_prompt"
  by (simp add: sample_prompt_def py_strip_def is_space_def)

lemma strip_refusal: "py_strip ''I cannot answer'' = ''I cannot answer''"
  by (simp add: py_strip_def is_space_def)

lemma refusal_not_json:
  "sample_loads (json_content ''I cannot answer'') = None"
  by (simp add: json_content_def sample_loads_def sample_json_def skewed_json_def)

lemma calculate_sample:
  "calculate_attention_weights (\<lambda>mdl p. Some sample_json) sample_loads (sample_record i)
     ''gpt-4.1'' = Some (sample_result i)"
  by (simp add: calculate_attention_weights_def sample_record_def create_sample_prompt
        strip_sample_json json_content_sample_json sample_loads_def sample_weights_def
        sample_result_def)

lemma sample_client_accepts:
  "i \<noteq> 2 \<Longrightarrow>
   calculate_attention_weights (sample_client i) sample_loads (sample_record n) ''gpt-4.1''
     = Some (sample_result n)"
proof -
  assume "i \<noteq> 2"
  then have "sample_client i = (\<lambda>mdl p. Some sample_json)"
    by (simp add: sample_client_def fun_eq_iff)
  then show ?thesis by (simp only: calculate_sample)
qed

lemma sample_client_rejects:
  "calculate_attention_weights (sample_client 2) sample_loads (sample_record n) ''gpt-4.1''
     = None"
  by (simp add: calculate_attention_weights_def sample_record_def create_sample_prompt
        sample_client_def strip_refusal refusal_not_json)

subsection \<open>The batch loop\<close>

lemma calculate_nonempty:
  "calculate_attention_weights c l q m = Some d \<Longrightarrow> d \<noteq> []"
  by (auto simp: calculate_attention_weights_def Let_def split: Option.bind_splits)

lemma process_loop_results:
  "results (process_loop c l m d t i qs st) = results st @ accepted c l m i qs"
proof (induction qs arbitrary: i st)
  case Nil
  then show ?case by simp
next
  case (Cons q qs)
  show ?case
  proof (cases "calculate_attention_weights (c i) l q m")
    case None
    then show ?thesis by (simp add: Cons.IH Let_def)
  next
    case (Some r)
    then have "r \<noteq> []" by (rule calculate_nonempty)
    with Some show ?thesis by (simp add: Cons.IH Let_def)
  qed
qed

lemma process_loop_trace:
  "trace (process_loop c l m d t i qs st) = trace st @ steps d t i (length qs)"
  by (induction qs arbitrary: i st) (simp_all add: Let_def)

lemma accepted_length: "length (accepted c l m i qs) \<le> length qs"
  by (induction qs arbitrary: i) (auto split: option.splits intro: le_SucI)

lemma accepted_concat:
  "accepted c l m i qs =
     concat (map (\<lambda>j. case calculate_attention_weights (c (i + j)) l (qs ! j) m of
                        None \<Rightarrow> [] | Some r \<Rightarrow> [r]) [0..<length qs])"
proof (induction qs arbitrary: i)
  case Nil
  then show ?case by simp
next
  case (Cons q qs)
  have "[0..<length (q # qs)] = 0 # map Suc [0..<length qs]"
    by (simp add: upt_conv_Cons map_Suc_upt del: upt_Suc)
  then show ?case
    by (simp add: Cons.IH comp_def del: upt_Suc)
qed

lemma calculate_source_fields:
  "calculate_attention_weights c l q m = Some r \<Longrightarrow> source_fields r = source_fields q"
  by (auto simp: calculate_attention_weights_def source_fields_def Let_def
           split: Option.bind_splits)

lemma calculate_data_id:
  "calculate_attention_weights c l q m = Some r \<Longrightarrow>
   map_of r ''data_id'' = map_of q ''data_id''"
  by (auto simp: calculate_attention_weights_def Let_def split: Option.bind_splits)

lemma accepted_subseq:
  "subseq (map source_fields (accepted c l m i qs)) (map source_fields qs)"
proof (induction qs arbitrary: i)
  case Nil
  then show ?case by simp
next
  case (Cons q qs)
  show ?case
  proof (cases "calculate_attention_weights (c i) l q m")
    case None
    then show ?thesis using Cons.IH [of "Suc i"] by (simp add: list_emb_Cons)
  next
    case (Some r)
    then have "source_fields r = source_fields q" by (rule calculate_source_fields)
    with Some show ?thesis using Cons.IH [of "Suc i"] by simp
  qed
qed

lemma steps_sleeps:
  "length (filter is_sleep (steps d t i n)) = min (i + n) t - min i t"
  by (induction n arbitrary: i) auto

lemma steps_saves: "filter is_save (steps d t i n) = []"
  by (induction n arbitrary: i) auto

lemma steps_no_save: "Save f rs \<notin> set (steps d t i n)"
  by (induction n arbitrary: i) auto

lemma steps_only_delay: "Sleep d' \<in> set (steps d t i n) \<Longrightarrow> d' = d"
  by (induction n arbitrary: i) (auto split: if_splits)

lemma steps_shape:
  "i + n = Suc t \<Longrightarrow> 0 < n \<Longrightarrow>
   (steps d t i n :: ('f, 'd) event list)
     = concat (map (\<lambda>j. [Progress j t, Sleep d]) [i..<t]) @ [Progress t t]"
proof (induction n arbitrary: i)
  case 0
  then show ?case by simp
next
  case (Suc n)
  show ?case
  proof (cases n)
    case 0
    with Suc.prems show ?thesis by simp
  next
    case (Suc n')
    with Suc.prems have lt: "i < t" by simp
    have rest: "(steps d t (Suc i) n :: ('f, 'd) event list)
        = concat (map (\<lambda>j. [Progress j t, Sleep d]) [Suc i..<t]) @ [Progress t t]"
      by (rule Suc.IH) (use Suc.prems Suc in simp_all)
    have head: "(steps d t i (Suc n) :: ('f, 'd) event list)
        = Progress i t # Sleep d # steps d t (Suc i) n"
      using lt by simp
    have range: "[i..<t] = i # [Suc i..<t]"
      using lt by (simp add: upt_conv_Cons)
    show ?thesis unfolding head rest range by simp
  qed
qed

lemma results_process_all:
  "results (process_all_quiz_data client loads quiz_data output_file mdl delay)
     = accepted client loads mdl 1 quiz_data"
  by (simp add: process_all_quiz_data_def Let_def process_loop_results)

lemma trace_process_all:
  "trace (process_all_quiz_data client loads quiz_data output_file mdl delay)
     = steps delay (length quiz_data) 1 (length quiz_data)
       @ [Save output_file (accepted client loads mdl 1 quiz_data)]"
  by (simp add: process_all_quiz_data_def Let_def process_loop_trace process_loop_results)

lemma concat_all_but:
  "\<forall>j \<in> set xs. j \<noteq> k \<longrightarrow> f j = [g j] \<Longrightarrow> f k = [] \<Longrightarrow>
   concat (map f xs) = map g (filter (\<lambda>j. j \<noteq> k) xs)"
  by (induction xs) auto

lemma upt_all_but: "k < n \<Longrightarrow> filter (\<lambda>j. j \<noteq> k) [0..<n] = [0..<k] @ [Suc k..<n]"
proof -
  assume "k < n"
  then have "[0..<n] = [0..<k] @ [k..<n]"
    using upt_add_eq_append [of 0 k "n - k"] by simp
  also have "[k..<n] = k # [Suc k..<n]"
    using \<open>k < n\<close> by (rule upt_conv_Cons)
  finally have split: "[0..<n] = [0..<k] @ k # [Suc k..<n]" .
  have "filter (\<lambda>j. j \<noteq> k) [0..<k] = [0..<k]"
    by (rule filter_True) simp
  moreover have "filter (\<lambda>j. j \<noteq> k) [Suc k..<n] = [Suc k..<n]"
    by (rule filter_True) simp
  ultimately show ?thesis unfolding split by simp
qed

lemma sample_batch_results:
  "accepted sample_client sample_loads ''gpt-4.1'' 1
     [sample_record 1, sample_record 2, sample_record 3]
   = [sample_result 1, sample_result 3]"
proof -
  have "Suc 0 \<noteq> 2" "Suc (Suc (Suc 0)) \<noteq> 2" by simp_all
  then show ?thesis
    using sample_client_rejects
    by (simp add: sample_client_accepts numeral_2_eq_2 [symmetric])
qed

subsection \<open>Rejection isolation\<close>

text \<open>
  Claim C1, as amended. When the reply for the record at position \<open>k\<close> (from 0; the
  loop counter is \<open>k + 1\<close>) does not parse and every other record is accepted, the
  batch holds the results of all the other records, in order, so one fewer than the
  input, and the loop runs to its end, where the results are saved. When the
  identifiers of the input are distinct, none of the results carries the identifier of
  record \<open>k\<close>.
\<close>

theorem rejection_isolation:
  fixes quiz_data :: "'f pydict list" and delay :: 'd
    and client loads output_file mdl
  defines "out \<equiv> process_all_quiz_data client loads quiz_data output_file mdl delay"
  assumes k: "k < length quiz_data"
    and fields: "map_of (quiz_data ! k) ''question'' = Some question"
      "map_of (quiz_data ! k) ''answer'' = Some answer"
      "map_of (quiz_data ! k) ''tokens'' = Some tokens"
    and prompt: "create_prompt question answer tokens = Some prompt"
    and reply: "client (Suc k) mdl prompt = Some content"
    and unparsable: "loads (json_content (py_strip content)) = None"
    and others: "\<forall>j < length quiz_data. j \<noteq> k \<longrightarrow>
        calculate_attention_weights (client (Suc j)) loads (quiz_data ! j) mdl \<noteq> None"
  shows "results out
           = map (\<lambda>j. the (calculate_attention_weights (client (Suc j)) loads
                             (quiz_data ! j) mdl))
               ([0..<k] @ [Suc k..<length quiz_data])
         \<and> length (results out) = length quiz_data - 1
         \<and> (distinct (map (\<lambda>q. map_of q ''data_id'') quiz_data) \<longrightarrow>
              (\<forall>r \<in> set (results out).
                 map_of r ''data_id'' \<noteq> map_of (quiz_data ! k) ''data_id''))
         \<and> last (trace out) = Save output_file (results out)"
proof -
  let ?calc = "\<lambda>j. calculate_attention_weights (client (Suc j)) loads (quiz_data ! j) mdl"
  let ?f = "\<lambda>j. case ?calc j of None \<Rightarrow> [] | Some r \<Rightarrow> [r]"
  have rejected: "?calc k = None"
    using fields prompt reply unparsable
    by (simp add: calculate_attention_weights_def split: Option.bind_split)
  have res: "results out = concat (map ?f [0..<length quiz_data])"
    by (simp add: out_def process_all_quiz_data_def Let_def process_loop_results
          accepted_concat)
  have "concat (map ?f [0..<length quiz_data])
      = map (\<lambda>j. the (?calc j)) (filter (\<lambda>j. j \<noteq> k) [0..<length quiz_data])"
  proof (rule concat_all_but)
    show "\<forall>j \<in> set [0..<length quiz_data]. j \<noteq> k \<longrightarrow> ?f j = [the (?calc j)]"
      using others by auto
    show "?f k = []" using rejected by simp
  qed
  with res k have first: "results out
      = map (\<lambda>j. the (?calc j)) ([0..<k] @ [Suc k..<length quiz_data])"
    by (simp only: upt_all_but)
  have len: "length (results out) = length quiz_data - 1"
    using k unfolding first by simp
  have ids: "map_of r ''data_id'' \<noteq> map_of (quiz_data ! k) ''data_id''"
    if dist: "distinct (map (\<lambda>q. map_of q ''data_id'') quiz_data)"
      and r: "r \<in> set (results out)" for r
  proof -
    from r have "r \<in> (\<lambda>j. the (?calc j)) ` set ([0..<k] @ [Suc k..<length quiz_data])"
      unfolding first by (simp only: set_map)
    then obtain j where mem: "j \<in> set ([0..<k] @ [Suc k..<length quiz_data])"
      and rj: "r = the (?calc j)"
      by blast
    from mem k have "j < length quiz_data" "j \<noteq> k" by auto
    note j = this rj
    with others obtain r' where "?calc j = Some r'" by blast
    with j have "map_of r ''data_id'' = map_of (quiz_data ! j) ''data_id''"
      by (simp add: calculate_data_id)
    moreover have "map_of (quiz_data ! j) ''data_id'' \<noteq> map_of (quiz_data ! k) ''data_id''"
      using dist j k by (auto simp: distinct_conv_nth)
    ultimately show ?thesis by simp
  qed
  have fin: "last (trace out) = Save output_file (results out)"
    by (simp add: out_def process_all_quiz_data_def Let_def)
  from first len ids fin show ?thesis by blast
qed

theorem rejection_isolation_witness:
  "results (process_all_quiz_data sample_client sample_loads
              [sample_record 1, sample_record 2, sample_record 3] ''out.json'' ''gpt-4.1''
              (2000000 :: int))
     = [sample_result 1, sample_result 3]
   \<and> map_of (sample_result 1) ''data_id'' \<noteq> map_of (sample_record 2) ''data_id''
   \<and> map_of (sample_result 3) ''data_id'' \<noteq> map_of (sample_record 2) ''data_id''"
proof -
  let ?qs = "[sample_record 1, sample_record 2, sample_record 3]"
  have k: "1 < length ?qs" by simp
  have q: "map_of (?qs ! 1) ''question'' = Some (PStr ''Q'')"
    and a: "map_of (?qs ! 1) ''answer'' = Some (PStr ''A'')"
    and t: "map_of (?qs ! 1) ''tokens'' = Some (PStr ''|a|b|c|'')"
    by (simp_all add: sample_record_def)
  have reply: "sample_client (Suc 1) ''gpt-4.1'' sample_prompt = Some ''I cannot answer''"
    by (simp add: sample_client_def)
  have unparsable: "sample_loads (json_content (py_strip ''I cannot answer'')) = None"
    by (simp add: strip_refusal refusal_not_json)
  have others: "\<forall>j < length ?qs. j \<noteq> 1 \<longrightarrow>
      calculate_attention_weights (sample_client (Suc j)) sample_loads (?qs ! j) ''gpt-4.1''
        \<noteq> None"
  proof (intro allI impI)
    fix j assume "j < length ?qs" "j \<noteq> 1"
    then have "j = 0 \<or> j = 2" by auto
    then show "calculate_attention_weights (sample_client (Suc j)) sample_loads (?qs ! j)
        ''gpt-4.1'' \<noteq> None"
      by (auto simp: sample_client_accepts)
  qed
  have dist: "distinct (map (\<lambda>q. map_of q ''data_id'') ?qs)"
    by (simp add: sample_record_def)
  from rejection_isolation [of 1 ?qs "PStr ''Q''" "PStr ''A''" "PStr ''|a|b|c|''"
      sample_prompt sample_client "''gpt-4.1''" "''I cannot answer''" sample_loads
      "''out.json''" "2000000 :: int", OF k q a t create_sample_prompt reply unparsable others]
  have res: "results (process_all_quiz_data sample_client sample_loads ?qs ''out.json''
        ''gpt-4.1'' (2000000 :: int))
      = map (\<lambda>j. the (calculate_attention_weights (sample_client (Suc j)) sample_loads
                        (?qs ! j) ''gpt-4.1'')) ([0..<1] @ [Suc 1..<length ?qs])"
    and ids: "distinct (map (\<lambda>q. map_of q ''data_id'') ?qs) \<longrightarrow>
      (\<forall>r \<in> set (results (process_all_quiz_data sample_client sample_loads ?qs ''out.json''
                          ''gpt-4.1'' (2000000 :: int))).
         map_of r ''data_id'' \<noteq> map_of (?qs ! 1) ''data_id'')"
    by blast+
  have range: "[0..<1] @ [Suc 1..<length ?qs] = [0, 2]"
    by (simp add: upt_conv_Cons)
  have res': "results (process_all_quiz_data sample_client sample_loads ?qs ''out.json''
        ''gpt-4.1'' (2000000 :: int)) = [sample_result 1, sample_result 3]"
    unfolding res range by (simp add: sample_client_accepts)
  from ids dist res' show ?thesis by simp
qed

text \<open>
  The claim as stated fails when another record carries the identifier of the rejected
  one, which nothing in the Annotator excludes: of two records with identifier 5, the
  second with a reply in plain words, the result of the first is kept.
\<close>

theorem rejection_isolation_counterexample:
  "sample_client 2 ''gpt-4.1'' sample_prompt = Some ''I cannot answer''
   \<and> sample_loads (json_content (py_strip ''I cannot answer'')) = None
   \<and> calculate_attention_weights (sample_client 1) sample_loads (sample_record 5)
         ''gpt-4.1'' = Some (sample_result 5)
   \<and> results (process_all_quiz_data sample_client sample_loads
                [sample_record 5, sample_record 5] ''out.json'' ''gpt-4.1''
                (2000000 :: int))
       = [sample_result 5]
   \<and> map_of (sample_result 5) ''data_id'' = map_of (sample_record 5) ''data_id''"
proof -
  have one: "(1 :: nat) \<noteq> 2" by simp
  have first: "calculate_attention_weights (sample_client 1) sample_loads (sample_record 5)
      ''gpt-4.1'' = Some (sample_result 5)"
    using one by (rule sample_client_accepts)
  have "accepted sample_client sample_loads ''gpt-4.1'' 1 [sample_record 5, sample_record 5]
      = [sample_result 5]"
    using first sample_client_rejects [of 5]
    by (simp add: numeral_2_eq_2 [symmetric])
  then have "results (process_all_quiz_data sample_client sample_loads
      [sample_record 5, sample_record 5] ''out.json'' ''gpt-4.1'' (2000000 :: int))
      = [sample_result 5]"
    by (simp only: results_process_all)
  moreover have "sample_client 2 ''gpt-4.1'' sample_prompt = Some ''I cannot answer''"
    by (simp add: sample_client_def)
  moreover have "sample_loads (json_content (py_strip ''I cannot answer'')) = None"
    by (simp add: strip_refusal refusal_not_json)
  moreover have "map_of (sample_result 5) ''data_id'' = map_of (sample_record 5) ''data_id''"
    by (simp add: sample_result_def sample_record_def)
  ultimately show ?thesis using first by (intro conjI)
qed

subsection \<open>Order of the batch\<close>

text \<open>
  Claim C5. The batch holds exactly the accepted results in input order: the fields
  they copy from their quiz records form a subsequence of the input's, and the batch
  is never longer than the input.
\<close>

theorem batch_subsequence:
  "results (process_all_quiz_data client loads quiz_data output_file mdl delay)
     = accepted client loads mdl 1 quiz_data
   \<and> subseq (map source_fields
                (results (process_all_quiz_data client loads quiz_data output_file mdl delay)))
             (map source_fields quiz_data)
   \<and> length (results (process_all_quiz_data client loads quiz_data output_file mdl delay))
        \<le> length quiz_data"
  by (simp only: results_process_all accepted_subseq accepted_length simp_thms)

subsection \<open>Delays and the single save\<close>

text \<open>
  Claim C7. The trace of a batch of \<open>n\<close> records is, for each record but the last,
  its progress line followed by one sleep of the configured delay, then the progress
  line of the last record, then the one save: \<open>n - 1\<close> sleeps, none of another
  length, and a single save at the end, whatever each record's outcome (an empty
  batch sleeps never and saves once).
\<close>

theorem delay_between_records:
  fixes quiz_data :: "'f pydict list" and delay :: 'd and client loads output_file mdl
  defines "out \<equiv> process_all_quiz_data client loads quiz_data output_file mdl delay"
  defines "n \<equiv> length quiz_data"
  shows "trace out
           = (if quiz_data = [] then []
              else concat (map (\<lambda>j. [Progress j n, Sleep delay]) [1..<n]) @ [Progress n n])
             @ [Save output_file (results out)]
         \<and> length (filter is_sleep (trace out)) = n - 1
         \<and> (\<forall>d. Sleep d \<in> set (trace out) \<longrightarrow> d = delay)
         \<and> filter is_save (trace out) = [Save output_file (results out)]"
proof -
  have res: "results out = accepted client loads mdl 1 quiz_data"
    by (simp add: out_def process_all_quiz_data_def Let_def process_loop_results)
  have tr: "trace out = steps delay n 1 n @ [Save output_file (results out)]"
    by (simp add: out_def n_def trace_process_all res [unfolded out_def])
  have shape: "(steps delay n 1 n :: ('f, 'd) event list)
      = (if quiz_data = [] then []
         else concat (map (\<lambda>j. [Progress j n, Sleep delay]) [1..<n]) @ [Progress n n])"
  proof (cases "quiz_data = []")
    case True
    then show ?thesis by (simp add: n_def)
  next
    case False
    then have "0 < n" by (simp add: n_def)
    then have "(steps delay n 1 n :: ('f, 'd) event list)
        = concat (map (\<lambda>j. [Progress j n, Sleep delay]) [1..<n]) @ [Progress n n]"
      by (intro steps_shape) simp_all
    with False show ?thesis by simp
  qed
  have count: "length (filter is_sleep (trace out)) = n - 1"
    unfolding tr by (cases n) (simp_all add: steps_sleeps)
  have only: "\<forall>d. Sleep d \<in> set (trace out) \<longrightarrow> d = delay"
    unfolding tr by (auto dest: steps_only_delay)
  have save: "filter is_save (trace out) = [Save output_file (results out)]"
    unfolding tr by (simp add: steps_saves)
  have first: "trace out
      = (if quiz_data = [] then []
         else concat (map (\<lambda>j. [Progress j n, Sleep delay]) [1..<n]) @ [Progress n n])
        @ [Save output_file (results out)]"
    by (simp only: tr shape)
  from first count only save show ?thesis by (intro conjI)
qed

theorem delay_between_records_witness:
  "trace (process_all_quiz_data sample_client sample_loads
            [sample_record 1, sample_record 2, sample_record 3] ''out.json'' ''gpt-4.1''
            (2000000 :: int))
     = [Progress 1 3, Sleep 2000000, Progress 2 3, Sleep 2000000, Progress 3 3,
        Save ''out.json'' [sample_result 1, sample_result 3]]
   \<and> length (filter is_sleep
         (trace (process_all_quiz_data sample_client sample_loads
                   [sample_record 1, sample_record 2, sample_record 3] ''out.json''
                   ''gpt-4.1'' (2000000 :: int)))) = 2"
proof -
  let ?qs = "[sample_record 1, sample_record 2, sample_record 3]"
  let ?out = "process_all_quiz_data sample_client sample_loads ?qs ''out.json'' ''gpt-4.1''
      (2000000 :: int)"
  have res: "results ?out = [sample_result 1, sample_result 3]"
    by (simp only: results_process_all sample_batch_results)
  have range: "[1..<length ?qs] = [1, 2]"
    by (simp add: upt_conv_Cons)
  from delay_between_records [of sample_client sample_loads ?qs "''out.json''" "''gpt-4.1''"
      "2000000 :: int"]
  have shape: "trace ?out
      = (if ?qs = [] then []
         else concat (map (\<lambda>j. [Progress j (length ?qs), Sleep 2000000]) [1..<length ?qs])
              @ [Progress (length ?qs) (length ?qs)])
        @ [Save ''out.json'' (results ?out)]"
    and count: "length (filter is_sleep (trace ?out)) = length ?qs - 1"
    by blast+
  have "trace ?out
      = [Progress 1 3, Sleep 2000000, Progress 2 3, Sleep 2000000, Progress 3 3,
         Save ''out.json'' [sample_result 1, sample_result 3]]"
    unfolding shape range res by simp
  with count show ?thesis by simp
qed

subsection \<open>Fence stripping\<close>

lemma calculate_same_content:
  assumes "json_content (py_strip t1) = json_content (py_strip t2)"
  shows "map_option without_response
           (calculate_attention_weights (\<lambda>mdl p. Some t1) loads quiz_item mdl)
       = map_option without_response
           (calculate_attention_weights (\<lambda>mdl p. Some t2) loads quiz_item mdl)"
  using assms
  by (auto simp: calculate_attention_weights_def without_response_def
           split: Option.bind_split)

lemma strip_plain_fenced: "py_strip plain_fenced = plain_fenced"
  using py_strip_between [of "CHR 0x60" "CHR 0x60"
      "''``'' @ [CHR 0x0A] @ sample_json @ [CHR 0x0A] @ ''``''" "[]"]
  by (simp add: plain_fenced_def is_space_def)

lemma plain_fenced_not_json: "sample_loads (json_content plain_fenced) = None"
  by (simp add: json_content_def plain_fenced_def sample_loads_def sample_json_def
        skewed_json_def)

lemma py_strip_leading:
  "\<forall>c \<in> set lead. is_space c \<Longrightarrow> py_strip (lead @ s) = py_strip s"
  by (simp add: py_strip_def dropWhile_append2)

text \<open>
  Claim C4, as amended. The Annotator first strips the white space around the reply.
  If what is left starts with the fence tagged \<open>json\<close>, and holds no opening brace
  before a text that runs from \<open>{\<close> to \<open>}\<close> and no closing brace after it, the
  reply is cut down to exactly that text before parsing, so it is accepted or rejected
  as the text alone is, with the same result apart from the raw response the result
  keeps. If what is left does not start with that fence (a fence without the tag, or
  text before the fence), it is handed to the parser whole.
\<close>

theorem fence_stripping:
  assumes "\<forall>c \<in> set lead. is_space c"
    and "CHR ''{'' \<notin> set pre" and "CHR ''}'' \<notin> set post"
  shows "json_content
           (py_strip (lead @ ''```json'' @ pre @ CHR ''{'' # body @ CHR ''}'' # post))
           = CHR ''{'' # body @ ''}''
         \<and> json_content (py_strip (CHR ''{'' # body @ ''}'')) = CHR ''{'' # body @ ''}''
         \<and> map_option without_response
               (calculate_attention_weights
                  (\<lambda>mdl p. Some (lead @ ''```json'' @ pre @ CHR ''{'' # body @ CHR ''}'' # post))
                  loads quiz_item mdl)
             = map_option without_response
                 (calculate_attention_weights (\<lambda>mdl p. Some (CHR ''{'' # body @ ''}''))
                    loads quiz_item mdl)
         \<and> (\<not> prefix ''```json'' (py_strip content) \<longrightarrow>
              json_content (py_strip content) = py_strip content)"
proof -
  let ?wrapped = "lead @ ''```json'' @ pre @ CHR ''{'' # body @ CHR ''}'' # post"
  have strip: "py_strip ?wrapped
      = py_strip (''```json'' @ pre @ CHR ''{'' # body @ CHR ''}'' # post)"
    using assms(1) by (rule py_strip_leading)
  have core: "json_content (py_strip (''```json'' @ pre @ CHR ''{'' # body @ CHR ''}'' # post))
      = CHR ''{'' # body @ ''}''"
    using assms(2,3) by (rule json_content_fenced)
  have fenced: "json_content (py_strip ?wrapped) = CHR ''{'' # body @ ''}''"
    by (simp only: strip core)
  have bare: "json_content (py_strip (CHR ''{'' # body @ ''}'')) = CHR ''{'' # body @ ''}''"
    by (rule json_content_bare)
  have "json_content (py_strip ?wrapped)
      = json_content (py_strip (CHR ''{'' # body @ ''}''))"
    by (simp only: fenced bare)
  then have same: "map_option without_response
        (calculate_attention_weights (\<lambda>mdl p. Some ?wrapped) loads quiz_item mdl)
      = map_option without_response
          (calculate_attention_weights (\<lambda>mdl p. Some (CHR ''{'' # body @ ''}''))
             loads quiz_item mdl)"
    by (rule calculate_same_content)
  have whole: "\<not> prefix ''```json'' (py_strip content) \<longrightarrow>
      json_content (py_strip content) = py_strip content"
    by (simp add: json_content_def)
  from fenced bare same whole show ?thesis by (intro conjI)
qed

theorem fence_stripping_witness:
  "json_content (py_strip ('' '' @ fenced_json)) = sample_json
   \<and> map_option without_response
         (calculate_attention_weights (\<lambda>mdl p. Some ('' '' @ fenced_json)) sample_loads
            (sample_record 1) ''gpt-4.1'')
       = Some (without_response (sample_result 1))
   \<and> json_content (py_strip (''Here it is: '' @ fenced_json))
       = ''Here it is: '' @ fenced_json"
proof -
  have lead: "\<forall>c \<in> set '' ''. is_space c"
    by (simp add: is_space_def)
  have pre: "CHR ''{'' \<notin> set [CHR 0x0A]" and post: "CHR ''}'' \<notin> set (CHR 0x0A # ''```'')"
    by simp_all
  have wrapped: "'' '' @ ''```json'' @ [CHR 0x0A] @ CHR ''{'' # sample_body
      @ CHR ''}'' # CHR 0x0A # ''```'' = '' '' @ fenced_json"
    by (simp add: fenced_json_def sample_json_def)
  have bare: "CHR ''{'' # sample_body @ ''}'' = sample_json"
    by (simp add: sample_json_def)
  have text_first: "py_strip (''Here it is: '' @ fenced_json) = ''Here it is: '' @ fenced_json"
    using py_strip_between [of "CHR ''H''" "CHR 0x60"
        "''ere it is: ```json'' @ [CHR 0x0A] @ sample_json @ [CHR 0x0A] @ ''``''" "[]"]
    by (simp add: fenced_json_def is_space_def)
  have no_fence: "\<not> prefix ''```json'' (py_strip (''Here it is: '' @ fenced_json))"
    unfolding text_first by simp
  from fence_stripping [OF lead pre post, of sample_body sample_loads "sample_record 1"
      "''gpt-4.1''" "''Here it is: '' @ fenced_json"]
  have cut: "json_content (py_strip ('' '' @ fenced_json)) = sample_json"
    and same: "map_option without_response
        (calculate_attention_weights (\<lambda>mdl p. Some ('' '' @ fenced_json)) sample_loads
           (sample_record 1) ''gpt-4.1'')
      = map_option without_response
          (calculate_attention_weights (\<lambda>mdl p. Some sample_json) sample_loads
             (sample_record 1) ''gpt-4.1'')"
    and whole: "\<not> prefix ''```json'' (py_strip (''Here it is: '' @ fenced_json)) \<longrightarrow>
      json_content (py_strip (''Here it is: '' @ fenced_json))
        = py_strip (''Here it is: '' @ fenced_json)"
    unfolding wrapped bare by blast+
  from whole no_fence have "json_content (py_strip (''Here it is: '' @ fenced_json))
      = py_strip (''Here it is: '' @ fenced_json)"
    by blast
  then have "json_content (py_strip (''Here it is: '' @ fenced_json))
      = ''Here it is: '' @ fenced_json"
    by (simp only: text_first)
  moreover from same have "map_option without_response
        (calculate_attention_weights (\<lambda>mdl p. Some ('' '' @ fenced_json)) sample_loads
           (sample_record 1) ''gpt-4.1'')
      = Some (without_response (sample_result 1))"
    by (simp only: calculate_sample option.map)
  ultimately show ?thesis using cut by (intro conjI)
qed

text \<open>
  The claim as stated fails for a fence without the tag: the reply is handed to the
  parser as it is, and the record is rejected although the document inside the fence
  is accepted on its own.
\<close>

theorem fence_stripping_counterexample:
  "json_content (py_strip plain_fenced) = plain_fenced
   \<and> plain_fenced \<noteq> sample_json
   \<and> calculate_attention_weights (\<lambda>mdl p. Some plain_fenced) sample_loads
         (sample_record 1) ''gpt-4.1'' = None
   \<and> calculate_attention_weights (\<lambda>mdl p. Some sample_json) sample_loads
         (sample_record 1) ''gpt-4.1'' = Some (sample_result 1)"
proof -
  have "json_content (py_strip plain_fenced) = plain_fenced"
    by (simp add: strip_plain_fenced) (simp add: json_content_def plain_fenced_def)
  moreover have "plain_fenced \<noteq> sample_json"
    by (simp add: plain_fenced_def sample_json_def)
  moreover have "calculate_attention_weights (\<lambda>mdl p. Some plain_fenced) sample_loads
      (sample_record 1) ''gpt-4.1'' = None"
    by (simp add: calculate_attention_weights_def sample_record_def create_sample_prompt
          strip_plain_fenced plain_fenced_not_json)
  ultimately show ?thesis by (simp add: calculate_sample)
qed

subsection \<open>What is accepted\<close>

text \<open>
  Claim C10. For a quiz record with its five fields and a reply of the client, the
  record is accepted exactly when the text handed to the parser parses to a dictionary
  holding \<open>token_weights\<close> and \<open>total_weight\<close>; the result then stores these two
  values as they are, whatever the length of the list, the weights in it or their sum.
\<close>

theorem acceptance_criterion:
  fixes quiz_item :: "'f pydict"
  assumes "map_of quiz_item ''data_id'' = Some data_id"
    and "map_of quiz_item ''question'' = Some question"
    and "map_of quiz_item ''answer'' = Some answer"
    and "map_of quiz_item ''tokens'' = Some tokens"
    and "map_of quiz_item ''token_count'' = Some token_count"
    and "create_prompt question answer tokens = Some prompt"
    and "client mdl prompt = Some content"
  shows "(calculate_attention_weights client loads quiz_item mdl \<noteq> None \<longleftrightarrow>
           (\<exists>d. loads (json_content (py_strip content)) = Some (PDict d)
              \<and> map_of d ''token_weights'' \<noteq> None \<and> map_of d ''total_weight'' \<noteq> None))
         \<and> (\<forall>d token_weights total_weight.
              loads (json_content (py_strip content)) = Some (PDict d)
              \<and> map_of d ''token_weights'' = Some token_weights
              \<and> map_of d ''total_weight'' = Some total_weight \<longrightarrow>
              calculate_attention_weights client loads quiz_item mdl
                = Some [(''data_id'', data_id), (''question'', question),
                        (''answer'', answer), (''tokens'', tokens),
                        (''token_count'', token_count),
                        (''attention_weights'', token_weights),
                        (''total_weight'', total_weight),
                        (''model'', PStr mdl),
                        (''model_response'', PStr (py_strip content))])"
proof -
  show ?thesis
  proof (cases "loads (json_content (py_strip content))")
    case None
    with assms show ?thesis
      by (simp add: calculate_attention_weights_def)
  next
    case (Some w)
    with assms show ?thesis
      by (cases w) (auto simp: calculate_attention_weights_def split: Option.bind_splits)
  qed
qed

theorem acceptance_criterion_witness:
  "calculate_attention_weights (\<lambda>mdl p. Some skewed_json) sample_loads (sample_record 1)
     ''gpt-4.1''
   = Some [(''data_id'', PInt 1), (''question'', PStr ''Q''), (''answer'', PStr ''A''),
           (''tokens'', PStr ''|a|b|c|''), (''token_count'', PInt 3),
           (''attention_weights'',
            PList [PDict [(''token'', PStr ''a''), (''weight'', PInt 5)]]),
           (''total_weight'', PInt 7),
           (''model'', PStr ''gpt-4.1''),
           (''model_response'', PStr skewed_json)]"
proof -
  let ?client = "\<lambda>(mdl :: string) (p :: int prompt). Some skewed_json"
  have fields: "map_of (sample_record 1) ''data_id'' = Some (PInt 1)"
    "map_of (sample_record 1) ''question'' = Some (PStr ''Q'')"
    "map_of (sample_record 1) ''answer'' = Some (PStr ''A'')"
    "map_of (sample_record 1) ''tokens'' = Some (PStr ''|a|b|c|'')"
    "map_of (sample_record 1) ''token_count'' = Some (PInt 3)"
    by (simp_all add: sample_record_def)
  have reply: "?client ''gpt-4.1'' sample_prompt = Some skewed_json" by simp
  have parsed: "sample_loads (json_content (py_strip skewed_json))
      = Some (PDict [(''token_weights'',
                      PList [PDict [(''token'', PStr ''a''), (''weight'', PInt 5)]]),
                     (''total_weight'', PInt 7)])"
    by (simp add: strip_skewed_json json_content_skewed_json sample_loads_def
          skewed_not_sample skewed_weights_def)
  from acceptance_criterion [where client = ?client and mdl = "''gpt-4.1''"
      and loads = sample_loads and content = skewed_json,
      OF fields create_sample_prompt reply]
  have "\<forall>d token_weights total_weight.
      sample_loads (json_content (py_strip skewed_json)) = Some (PDict d)
      \<and> map_of d ''token_weights'' = Some token_weights
      \<and> map_of d ''total_weight'' = Some total_weight \<longrightarrow>
      calculate_attention_weights ?client sample_loads (sample_record 1) ''gpt-4.1''
        = Some [(''data_id'', PInt 1), (''question'', PStr ''Q''), (''answer'', PStr ''A''),
                (''tokens'', PStr ''|a|b|c|''), (''token_count'', PInt 3),
                (''attention_weights'', token_weights),
                (''total_weight'', total_weight),
                (''model'', PStr ''gpt-4.1''),
                (''model_response'', PStr (py_strip skewed_json))]"
    by blast
  with parsed show ?thesis by (simp add: strip_skewed_json)
qed

section \<open>Properties of the Flattener\<close>

lemma collect_lengths:
  "collect fmt tf entries = Some (tokens, weights) \<Longrightarrow>
   length tokens = length entries \<and> length weights = length entries"
  by (induction entries arbitrary: tokens weights)
     (auto split: Option.bind_splits prod.splits)

lemma strings_of_length: "strings_of vs = Some ts \<Longrightarrow> length ts = length vs"
  by (induction vs arbitrary: ts rule: strings_of.induct) auto

lemma count_join:
  "xs \<noteq> [] \<Longrightarrow> \<forall>x \<in> set xs. CHR ''|'' \<notin> set x \<Longrightarrow>
   length (filter (\<lambda>c. c = CHR ''|'') (py_join ''|'' xs)) = length xs - 1"
proof (induction xs)
  case Nil
  then show ?case by simp
next
  case (Cons x xs)
  show ?case
  proof (cases xs)
    case Nil
    with Cons.prems show ?thesis by (auto simp: filter_empty_conv)
  next
    case (Cons y ys)
    with Cons.IH Cons.prems
    have "length (filter (\<lambda>c. c = CHR ''|'') (py_join ''|'' xs)) = length xs - 1"
      by simp
    moreover have "filter (\<lambda>c. c = CHR ''|'') x = []"
      using Cons.prems by (auto simp: filter_empty_conv)
    ultimately show ?thesis using Cons by simp
  qed
qed

lemma segment_count_wrapped:
  "xs \<noteq> [] \<Longrightarrow> \<forall>x \<in> set xs. CHR ''|'' \<notin> set x \<Longrightarrow>
   segment_count (''|'' @ py_join ''|'' xs @ ''|'') = int (length xs)"
  by (cases xs) (simp_all add: segment_count_def count_join)

lemma strings_of_tokens:
  "strings_of vs = Some ts \<Longrightarrow> vs = map PStr ts"
  by (induction vs arbitrary: ts rule: strings_of.induct) auto

lemma collect_delimiter_free:
  "collect fmt tf entries = Some (tokens, weights) \<Longrightarrow>
   \<forall>e \<in> set entries. delimiter_free fmt tf e \<Longrightarrow>
   (\<forall>t. PStr t \<in> set tokens \<longrightarrow> CHR ''|'' \<notin> set t)
   \<and> (\<forall>w \<in> set weights. CHR ''|'' \<notin> set w)"
proof (induction entries arbitrary: tokens weights)
  case Nil
  then show ?case by simp
next
  case (Cons e entries)
  from Cons.prems(1) obtain token weight w tokens' weights'
    where e: "subscript e ''token'' = Some token" "subscript e ''weight'' = Some weight"
      "format_6f fmt tf weight = Some w"
    and rest: "collect fmt tf entries = Some (tokens', weights')"
    and eq: "tokens = token # tokens'" "weights = w # weights'"
    by (auto split: Option.bind_splits prod.splits)
  from Cons.prems(2) have free: "delimiter_free fmt tf e"
    and free': "\<forall>e \<in> set entries. delimiter_free fmt tf e"
    by simp_all
  from Cons.IH [OF rest free']
  have ih: "(\<forall>t. PStr t \<in> set tokens' \<longrightarrow> CHR ''|'' \<notin> set t)
      \<and> (\<forall>w \<in> set weights'. CHR ''|'' \<notin> set w)" .
  from free e have "\<forall>t. token = PStr t \<longrightarrow> CHR ''|'' \<notin> set t" "CHR ''|'' \<notin> set w"
    by (auto split: pyval.splits)
  with ih eq show ?case by auto
qed

lemma make_row_counts:
  assumes row: "make_row fmt tf item = Some row"
  shows "\<exists>entries tokens_str weights_str.
           entries_of item = Some entries
           \<and> map_option (\<lambda>tc. [the (subscript item ''data_id''),
                                 the (subscript item ''question''),
                                 the (subscript item ''answer''),
                                 PStr tokens_str, PStr weights_str, tc])
                 (subscript item ''token_count'') = Some row
           \<and> (entries \<noteq> [] \<and> (\<forall>e \<in> set entries. delimiter_free fmt tf e) \<longrightarrow>
                segment_count tokens_str = int (length entries)
                \<and> segment_count weights_str = int (length entries))"
proof -
  from row obtain data_id question answer token_count aw entries tokens weights ts
    where f: "subscript item ''data_id'' = Some data_id"
      "subscript item ''question'' = Some question"
      "subscript item ''answer'' = Some answer"
      "subscript item ''token_count'' = Some token_count"
    and aw: "subscript item ''attention_weights'' = Some aw" "iterate aw = Some entries"
    and col: "collect fmt tf entries = Some (tokens, weights)"
    and ts: "strings_of tokens = Some ts"
    and r: "row = [data_id, question, answer, PStr (''|'' @ py_join ''|'' ts @ ''|''),
                   PStr (''|'' @ py_join ''|'' weights @ ''|''), token_count]"
    by (auto simp: make_row_def Let_def split: Option.bind_splits prod.splits)
  have len: "length ts = length entries" "length weights = length entries"
    using collect_lengths [OF col] strings_of_length [OF ts] by simp_all
  have counts: "segment_count (''|'' @ py_join ''|'' ts @ ''|'') = int (length entries)
      \<and> segment_count (''|'' @ py_join ''|'' weights @ ''|'') = int (length entries)"
    if ne: "entries \<noteq> []" and free: "\<forall>e \<in> set entries. delimiter_free fmt tf e"
  proof -
    from collect_delimiter_free [OF col free]
    have tok: "\<forall>t. PStr t \<in> set tokens \<longrightarrow> CHR ''|'' \<notin> set t"
      and wt: "\<forall>w \<in> set weights. CHR ''|'' \<notin> set w" by simp_all
    from tok strings_of_tokens [OF ts] have tok': "\<forall>t \<in> set ts. CHR ''|'' \<notin> set t"
      by auto
    from ne len have "ts \<noteq> []" "weights \<noteq> []" by auto
    with tok' wt len show ?thesis
      by (simp only: segment_count_wrapped simp_thms)
  qed
  from f aw r counts show ?thesis
    by (auto simp: entries_of_def)
qed

lemma rows_written_source:
  "row \<in> set (rows_written fmt tf items) \<Longrightarrow>
   \<exists>item \<in> set items. make_row fmt tf item = Some row"
  by (induction items) (auto split: option.splits)

lemma fmt_samples:
  "fmt_millionths 100000 = ''0.100000''"
  "fmt_millionths 300000 = ''0.300000''"
  "fmt_millionths 600000 = ''0.600000''"
  "fmt_millionths 5000000 = ''5.000000''"
  by (simp_all add: fmt_millionths_def decimal.simps digit_char_def)

lemma make_row_sample:
  "make_row fmt_millionths micro_of_int sample_annotated = Some sample_row"
  by (simp add: make_row_def sample_annotated_def sample_row_def fmt_samples)

lemma make_row_skewed:
  "make_row fmt_millionths micro_of_int (PDict skewed_result)
     = Some [PInt 1, PStr ''Q'', PStr ''A'', PStr ''|a|'', PStr ''|5.000000|'', PInt 3]"
  by (simp add: make_row_def skewed_result_def micro_of_int_def fmt_samples)

lemma calculate_skewed:
  "calculate_attention_weights (\<lambda>mdl p. Some skewed_json) sample_loads (sample_record 1)
     ''gpt-4.1'' = Some skewed_result"
  by (simp add: calculate_attention_weights_def sample_record_def create_sample_prompt
        strip_skewed_json json_content_skewed_json sample_loads_def skewed_not_sample
        skewed_weights_def skewed_result_def)

text \<open>
  Claim C2, as amended. Every row the Flattener writes is the row of one of the
  records. When the record has at least one entry and no token and no formatted weight
  of it holds the delimiter, the tokens field and the weights field of the row both
  have as many segments as the record has entries. The last field of the row is the
  \<open>token_count\<close> of the record as it stands: it is copied, not counted.
\<close>

theorem flat_row_counts:
  assumes "row \<in> set (rows_written fmt to_float items)"
  shows "\<exists>item entries d q a tokens_str weights_str declared.
           item \<in> set items \<and> make_row fmt to_float item = Some row
           \<and> entries_of item = Some entries
           \<and> subscript item ''token_count'' = Some declared
           \<and> row = [d, q, a, PStr tokens_str, PStr weights_str, declared]
           \<and> (entries \<noteq> [] \<and> (\<forall>e \<in> set entries. delimiter_free fmt to_float e) \<longrightarrow>
                segment_count tokens_str = int (length entries)
                \<and> segment_count weights_str = int (length entries))"
proof -
  from assms obtain item where item: "item \<in> set items"
    and row: "make_row fmt to_float item = Some row"
    by (blast dest: rows_written_source)
  from make_row_counts [OF row] obtain entries tokens_str weights_str
    where entries: "entries_of item = Some entries"
      and shape: "map_option (\<lambda>tc. [the (subscript item ''data_id''),
                                 the (subscript item ''question''),
                                 the (subscript item ''answer''),
                                 PStr tokens_str, PStr weights_str, tc])
                 (subscript item ''token_count'') = Some row"
      and counts: "entries \<noteq> [] \<and> (\<forall>e \<in> set entries. delimiter_free fmt to_float e) \<longrightarrow>
                segment_count tokens_str = int (length entries)
                \<and> segment_count weights_str = int (length entries)"
    by blast
  from shape obtain declared where declared: "subscript item ''token_count'' = Some declared"
    and r: "row = [the (subscript item ''data_id''), the (subscript item ''question''),
                   the (subscript item ''answer''), PStr tokens_str, PStr weights_str,
                   declared]"
    by auto
  from item row entries declared r counts show ?thesis by blast
qed

theorem flat_row_counts_witness:
  "sample_row \<in> set (rows_written fmt_millionths micro_of_int [sample_annotated])
   \<and> segment_count ''|a|b|c|'' = 3
   \<and> segment_count ''|0.100000|0.300000|0.600000|'' = 3
   \<and> subscript sample_annotated ''token_count'' = Some (PInt 3)"
proof -
  have mem: "sample_row \<in> set (rows_written fmt_millionths micro_of_int [sample_annotated])"
    by (simp add: make_row_sample)
  from flat_row_counts [OF mem] obtain item entries d q a tokens_str weights_str declared
    where item: "item \<in> set [sample_annotated]"
      and entries: "entries_of item = Some entries"
      and declared: "subscript item ''token_count'' = Some declared"
      and shape: "sample_row = [d, q, a, PStr tokens_str, PStr weights_str, declared]"
      and counts: "entries \<noteq> [] \<and> (\<forall>e \<in> set entries. delimiter_free fmt_millionths
            micro_of_int e) \<longrightarrow>
          segment_count tokens_str = int (length entries)
          \<and> segment_count weights_str = int (length entries)"
    by blast
  from item have item': "item = sample_annotated" by simp
  from entries have e: "entries = [PDict [(''token'', PStr ''a''), (''weight'', PFloat 100000)],
      PDict [(''token'', PStr ''b''), (''weight'', PFloat 300000)],
      PDict [(''token'', PStr ''c''), (''weight'', PFloat 600000)]]"
    unfolding item' by (simp add: entries_of_def sample_annotated_def)
  from shape have fields: "tokens_str = ''|a|b|c|''"
    "weights_str = ''|0.100000|0.300000|0.600000|''" "declared = PInt 3"
    by (simp_all add: sample_row_def)
  have "entries \<noteq> [] \<and> (\<forall>e \<in> set entries. delimiter_free fmt_millionths micro_of_int e)"
    unfolding e by (simp add: fmt_samples)
  with counts have "segment_count tokens_str = int (length entries)
      \<and> segment_count weights_str = int (length entries)"
    by blast
  then have "segment_count ''|a|b|c|'' = 3
      \<and> segment_count ''|0.100000|0.300000|0.600000|'' = 3"
    unfolding fields e by simp
  moreover from declared have "subscript sample_annotated ''token_count'' = Some (PInt 3)"
    unfolding item' fields .
  ultimately show ?thesis using mem by simp
qed

text \<open>
  The claim as stated fails on a record the Annotator accepts: for the reply
  \<open>skewed_json\<close> the result declares three tokens and holds one entry, and its row
  has one segment in each field beside the declared count of 3.
\<close>

theorem flat_row_counts_counterexample:
  "calculate_attention_weights (\<lambda>mdl p. Some skewed_json) sample_loads (sample_record 1)
     ''gpt-4.1'' = Some skewed_result
   \<and> rows_written fmt_millionths micro_of_int [PDict skewed_result]
       = [[PInt 1, PStr ''Q'', PStr ''A'', PStr ''|a|'', PStr ''|5.000000|'', PInt 3]]
   \<and> segment_count ''|a|'' = 1
   \<and> segment_count ''|5.000000|'' = 1
   \<and> segment_count ''|a|'' \<noteq> 3"
  by (simp add: calculate_skewed make_row_skewed segment_count_def)

text \<open>
  What \<open>verify_format\<close> prints for first rows as they are read back: the verdict
  for the two rows above, and a count written as \<open>3.0\<close>, which \<open>int\<close> refuses.
\<close>

lemma verify_format_samples:
  "verify_format [[''1'', ''Q'', ''A'', ''|a|b|c|'', ''|0.100000|0.300000|0.600000|'', ''3'']]
     False = Some CountsOK"
  "verify_format [[''data_id'', ''question'', ''answer'', ''tokens'', ''weights'',
                   ''token_count''],
                  [''1'', ''Q'', ''A'', ''|a|'', ''|5.000000|'', ''3'']]
     True = Some CountsNG"
  "verify_format [[''1'', ''Q'', ''A'', ''|a|b|c|'', ''|0.100000|0.300000|0.600000|'',
                   ''3.0'']]
     False = Some CheckRaised"
  "verify_format [[''data_id'', ''question'', ''answer'', ''tokens'', ''weights'',
                   ''token_count'']]
     True = None"
  by (simp_all add: verify_format_def segment_count_def py_int_def py_strip_def
        is_space_def is_digit_def digit_value_def)

lemma convert_keeps_input:
  "output_file \<noteq> input_json \<Longrightarrow>
   convert_to_csv loads fmt tf writerow fs input_json output_file h input_json
     = fs input_json"
  by (simp add: convert_to_csv_def split: option.splits)

lemma convert_depends_on_input:
  "fs' input_json = fs input_json \<Longrightarrow>
   (convert_to_csv loads fmt tf writerow fs' input_json output_file h output_file
      = convert_to_csv loads fmt tf writerow fs input_json output_file h output_file
    \<and> convert_to_csv loads fmt tf writerow fs input_json output_file h output_file \<noteq> None)
   \<or> (convert_to_csv loads fmt tf writerow fs' input_json output_file h = fs'
      \<and> convert_to_csv loads fmt tf writerow fs input_json output_file h = fs)"
  by (simp add: convert_to_csv_def split: option.splits)

lemma convert_idempotent:
  "output_file \<noteq> input_json \<Longrightarrow>
   convert_to_csv loads fmt tf writerow
     (convert_to_csv loads fmt tf writerow fs input_json output_file h)
     input_json output_file h
   = convert_to_csv loads fmt tf writerow fs input_json output_file h"
  by (simp add: convert_to_csv_def split: option.splits)

lemma sample_lines:
  "sample_writerow header
     = ''data_id,question,answer,tokens,weights,token_count'' @ [CHR 0x0D, CHR 0x0A]"
  "sample_writerow sample_row
     = ''1,Q,A,|a|b|c|,|0.100000|0.300000|0.600000|,3'' @ [CHR 0x0D, CHR 0x0A]"
  by (simp_all add: sample_writerow_def header_def sample_row_def decimal.simps
        digit_char_def)

text \<open>
  Claim C9. The Flattener reads its input file and nothing else, and leaves it as it
  is; its output paths being other than the input path, a second run on the files the
  first run left changes nothing, and two runs on any two file states that hold the
  same input write the same two files (or, when the input cannot be read, write
  nothing).
\<close>

theorem flattener_rerun:
  fixes loads fmt to_float writerow input_json output_with_header output_no_header
  defines "run \<equiv> \<lambda>fs. flattener_main loads fmt to_float writerow fs input_json
      output_with_header output_no_header"
  assumes "output_with_header \<noteq> input_json" and "output_no_header \<noteq> input_json"
  shows "run (run fs) = run fs
         \<and> run fs input_json = fs input_json
         \<and> (fs' input_json = fs input_json \<longrightarrow>
              (run fs' output_with_header = run fs output_with_header
               \<and> run fs' output_no_header = run fs output_no_header)
              \<or> (run fs' = fs' \<and> run fs = fs))"
proof -
  have keep: "run fs input_json = fs input_json" for fs
    using assms(2,3) by (simp add: run_def flattener_main_def Let_def convert_keeps_input)
  have again: "run (run fs) = run fs"
    using assms(2,3)
    by (auto simp: run_def flattener_main_def Let_def convert_to_csv_def fun_upd_twist
             split: option.splits)
  have same: "(run fs' output_with_header = run fs output_with_header
               \<and> run fs' output_no_header = run fs output_no_header)
              \<or> (run fs' = fs' \<and> run fs = fs)"
    if "fs' input_json = fs input_json"
    using assms(2,3) that
    by (auto simp: run_def flattener_main_def Let_def convert_to_csv_def
             split: option.splits)
  from keep again same show ?thesis by blast
qed

theorem flattener_rerun_witness:
  "flattener_main sample_load fmt_millionths micro_of_int sample_writerow
     (flattener_main sample_load fmt_millionths micro_of_int sample_writerow sample_files
        ''weights.json'' ''weights.csv'' ''weights_no_header.csv'')
     ''weights.json'' ''weights.csv'' ''weights_no_header.csv''
   = flattener_main sample_load fmt_millionths micro_of_int sample_writerow sample_files
       ''weights.json'' ''weights.csv'' ''weights_no_header.csv''
   \<and> flattener_main sample_load fmt_millionths micro_of_int sample_writerow sample_files
       ''weights.json'' ''weights.csv'' ''weights_no_header.csv'' ''weights.csv''
     = Some (''data_id,question,answer,tokens,weights,token_count'' @ [CHR 0x0D, CHR 0x0A]
             @ ''1,Q,A,|a|b|c|,|0.100000|0.300000|0.600000|,3'' @ [CHR 0x0D, CHR 0x0A])
   \<and> flattener_main sample_load fmt_millionths micro_of_int sample_writerow sample_files
       ''weights.json'' ''weights.csv'' ''weights_no_header.csv'' ''weights_no_header.csv''
     = Some (''1,Q,A,|a|b|c|,|0.100000|0.300000|0.600000|,3'' @ [CHR 0x0D, CHR 0x0A])"
proof -
  have h: "''weights.csv'' \<noteq> ''weights.json''"
    and n: "''weights_no_header.csv'' \<noteq> ''weights.json''" by simp_all
  have files: "flattener_main sample_load fmt_millionths micro_of_int sample_writerow
      sample_files ''weights.json'' ''weights.csv'' ''weights_no_header.csv''
    = sample_files(''weights.csv'' \<mapsto> sample_writerow header @ sample_writerow sample_row,
                   ''weights_no_header.csv'' \<mapsto> sample_writerow sample_row)"
    by (simp add: flattener_main_def convert_to_csv_def sample_files_def sample_load_def
          make_row_sample)
  from flattener_rerun [OF h n, of sample_load fmt_millionths micro_of_int sample_writerow
      sample_files]
  have "flattener_main sample_load fmt_millionths micro_of_int sample_writerow
      (flattener_main sample_load fmt_millionths micro_of_int sample_writerow sample_files
         ''weights.json'' ''weights.csv'' ''weights_no_header.csv'')
      ''weights.json'' ''weights.csv'' ''weights_no_header.csv''
    = flattener_main sample_load fmt_millionths micro_of_int sample_writerow sample_files
        ''weights.json'' ''weights.csv'' ''weights_no_header.csv''"
    by blast
  moreover have "flattener_main sample_load fmt_millionths micro_of_int sample_writerow
      sample_files ''weights.json'' ''weights.csv'' ''weights_no_header.csv'' ''weights.csv''
    = Some (''data_id,question,answer,tokens,weights,token_count'' @ [CHR 0x0D, CHR 0x0A]
            @ ''1,Q,A,|a|b|c|,|0.100000|0.300000|0.600000|,3'' @ [CHR 0x0D, CHR 0x0A])"
    unfolding files by (simp add: sample_lines)
  moreover have "flattener_main sample_load fmt_millionths micro_of_int sample_writerow
      sample_files ''weights.json'' ''weights.csv'' ''weights_no_header.csv''
      ''weights_no_header.csv''
    = Some (''1,Q,A,|a|b|c|,|0.100000|0.300000|0.600000|,3'' @ [CHR 0x0D, CHR 0x0A])"
    unfolding files by (simp add: sample_lines)
  ultimately show ?thesis by (intro conjI)
qed

section \<open>Properties of the Selector\<close>

subsection \<open>Positions in the target list\<close>

lemma index_of_absent: "x \<notin> set xs \<Longrightarrow> index_of xs x = length xs"
  by (induction xs) auto

lemma index_of_less: "x \<in> set xs \<Longrightarrow> index_of xs x < length xs"
  by (induction xs) auto

lemma nth_index_of: "x \<in> set xs \<Longrightarrow> xs ! index_of xs x = x"
  by (induction xs) auto

lemma index_of_nth: "distinct xs \<Longrightarrow> i < length xs \<Longrightarrow> index_of xs (xs ! i) = i"
proof (induction xs arbitrary: i)
  case Nil
  then show ?case by simp
next
  case (Cons x xs)
  then show ?case by (cases i) auto
qed

lemma index_of_inj: "inj_on (index_of xs) (set xs)"
  by (rule inj_on_inverseI [where g = "(!) xs"]) (rule nth_index_of)

lemma index_of_map_Some: "index_of (map Some xs) (Some x) = index_of xs x"
  by (induction xs) auto

lemma category_code_index:
  "category_code ids r = index_of (map Some ids) (row_id r)"
proof (cases "row_id r")
  case None
  then have "index_of (map Some ids) (row_id r) = length (map Some ids)"
    by (intro index_of_absent) auto
  with None show ?thesis by simp
next
  case (Some i)
  then show ?thesis by (simp add: index_of_map_Some)
qed

lemma sorted_index_filter:
  assumes "distinct xs"
  shows "sorted (map (index_of xs) (filter P xs))"
proof -
  have "sorted_wrt (\<lambda>a b. index_of xs a \<le> index_of xs b) xs"
    using assms by (auto simp: sorted_wrt_iff_nth_less index_of_nth)
  then have "sorted_wrt (\<lambda>a b. index_of xs a \<le> index_of xs b) (filter P xs)"
    by (rule sorted_wrt_filter)
  then show ?thesis by (simp add: sorted_map)
qed

lemma ordering_core:
  assumes L: "distinct L" and rs: "distinct (map key rs)" and sub: "key ` set rs \<subseteq> set L"
  shows "map key (sort_key (\<lambda>r. index_of L (key r)) rs)
           = filter (\<lambda>i. i \<in> key ` set rs) L"
proof -
  let ?f = "\<lambda>r. index_of L (key r)"
  let ?A = "map ?f (sort_key ?f rs)"
  let ?B = "map (index_of L) (filter (\<lambda>i. i \<in> key ` set rs) L)"
  have inj_key: "inj_on key (set rs)" and drs: "distinct rs"
    using rs by (simp_all add: distinct_map)
  have inj_f: "inj_on ?f (set rs)"
  proof (rule inj_onI)
    fix a b assume a: "a \<in> set rs" and b: "b \<in> set rs" and eq: "?f a = ?f b"
    from a b sub have "key a \<in> set L" "key b \<in> set L" by auto
    with eq have "key a = key b" using index_of_inj [of L] by (auto dest: inj_onD)
    with a b inj_key show "a = b" by (auto dest: inj_onD)
  qed
  have "sorted ?A" by (rule sorted_sort_key)
  moreover have "distinct ?A" using drs inj_f by (simp add: distinct_map)
  moreover have "sorted ?B" using L by (rule sorted_index_filter)
  moreover have "distinct ?B"
    using L index_of_inj [of L] by (auto simp: distinct_map intro: inj_on_subset)
  moreover have "set ?A = set ?B" using sub by auto
  ultimately have AB: "?A = ?B" by (rule sorted_distinct_set_unique)
  have "map key (sort_key ?f rs) = map ((!) L) ?A"
    using sub by (auto simp: nth_index_of)
  also have "\<dots> = map ((!) L) ?B" by (simp only: AB)
  also have "\<dots> = filter (\<lambda>i. i \<in> key ` set rs) L"
    by (simp add: comp_def) (rule map_idI, simp add: nth_index_of)
  finally show ?thesis .
qed

lemma map_of_project:
  "map_of (project r) c = (if c \<in> set required_columns then map_of r c else None)"
proof -
  have "map_of (List.map_filter (\<lambda>col. map_option (Pair col) (map_of r col)) cs) c
      = (if c \<in> set cs then map_of r c else None)" for cs
    by (induction cs) (auto simp: List.map_filter_simps split: option.splits)
  then show ?thesis by (simp add: project_def)
qed

lemma row_id_project: "row_id (project r) = row_id r"
  by (simp add: row_id_def map_of_project required_columns_def)

lemma set_map_filter: "set (List.map_filter f xs) = {y. \<exists>x \<in> set xs. f x = Some y}"
  by (induction xs) (auto simp: List.map_filter_simps split: option.splits)

lemma select_rows_ordered:
  assumes cols: "set required_columns \<subseteq> set (columns df)"
    and ne: "ids \<noteq> []" and ids: "distinct ids"
    and src: "distinct (map row_id (rows df))"
  shows "\<exists>extracted.
           select_rows df (Some ids)
             = Inr (extracted,
                    if absent_ids df ids \<noteq> [] then [Warning (absent_ids df ids)] else [])
           \<and> map row_id extracted = map Some (present_ids df ids)"
proof -
  let ?rs = "filter (\<lambda>r. isin (row_id r) ids) (rows df)"
  let ?sorted = "sort_key (category_code ids) ?rs"
  have no_missing: "filter (\<lambda>col. col \<notin> set (columns df)) required_columns = []"
    using cols by (auto simp: filter_empty_conv)
  have mem: "isin x ids \<longleftrightarrow> x \<in> set (map Some ids)" for x
    by (cases x) auto
  have d: "distinct (map row_id ?rs)"
    using src by (rule distinct_map_filter)
  have sub: "row_id ` set ?rs \<subseteq> set (map Some ids)"
    by (auto simp: mem)
  have code: "category_code ids = (\<lambda>r. index_of (map Some ids) (row_id r))"
    by (rule ext) (rule category_code_index)
  have "map row_id ?sorted = filter (\<lambda>i. i \<in> row_id ` set ?rs) (map Some ids)"
    unfolding code using ids d sub by (intro ordering_core) (simp_all add: distinct_map)
  also have "\<dots> = map Some (filter (\<lambda>i. Some i \<in> row_id ` set ?rs) ids)"
    by (simp add: filter_map comp_def)
  also have "filter (\<lambda>i. Some i \<in> row_id ` set ?rs) ids = present_ids df ids"
    unfolding present_ids_def
  proof (rule filter_cong)
    fix i assume i: "i \<in> set ids"
    show "Some i \<in> row_id ` set ?rs \<longleftrightarrow> Some i \<in> set (map row_id (rows df))"
    proof
      assume "Some i \<in> row_id ` set ?rs"
      then show "Some i \<in> set (map row_id (rows df))" by auto
    next
      assume "Some i \<in> set (map row_id (rows df))"
      then obtain r where r: "r \<in> set (rows df)" "row_id r = Some i" by force
      with i have "r \<in> set ?rs" by simp
      with r(2) show "Some i \<in> row_id ` set ?rs" by force
    qed
  qed simp
  finally have sorted_ids: "map row_id ?sorted = map Some (present_ids df ids)" .
  have found: "set (List.map_filter row_id ?sorted) = set (present_ids df ids)"
  proof -
    have "set (List.map_filter row_id ?sorted) = {i. Some i \<in> set (map row_id ?sorted)}"
      unfolding set_map_filter by force
    then show ?thesis unfolding sorted_ids by auto
  qed
  have missing: "filter (\<lambda>data_id. data_id \<notin> set (List.map_filter row_id ?sorted)) ids
      = absent_ids df ids"
    unfolding found absent_ids_def present_ids_def by (rule filter_cong) auto
  have "select_rows df (Some ids)
      = Inr (map project ?sorted,
             if absent_ids df ids \<noteq> [] then [Warning (absent_ids df ids)] else [])"
    using ne ids by (simp add: select_rows_def no_missing Let_def missing)
  moreover have "map row_id (map project ?sorted) = map Some (present_ids df ids)"
    using sorted_ids by (simp add: comp_def row_id_project)
  ultimately show ?thesis by blast
qed

lemma present_absent_length:
  "length (present_ids df ids) + length (absent_ids df ids) = length ids"
  unfolding present_ids_def absent_ids_def by (rule sum_length_filter_compl)

lemma sample_table_ids:
  "map row_id (rows sample_table) = [Some 32, Some 141, Some 2201, Some 84]"
  by (simp add: sample_table_def source_row_def row_id_def)

lemma sample_table_columns: "set required_columns \<subseteq> set (columns sample_table)"
  by (simp add: required_columns_def sample_table_def)

lemma project_source_row: "project (source_row i q) = selected_row i q"
  by (simp add: project_def required_columns_def source_row_def selected_row_def
        List.map_filter_simps)

subsection \<open>Order of the selection\<close>

text \<open>
  Claim C3, as amended. Let the source have the required columns. For a target list
  that is not empty and repeats no identifier, and a source that repeats no
  identifier, the identifiers of the selected records are the target list restricted
  to the identifiers the source holds, in the order of the target list; these records
  are the document written. The empty list counts as no list: every row is kept, in
  source order. A list that repeats an identifier ends the invocation with one printed
  error and nothing written.
\<close>

theorem selector_order:
  assumes "set required_columns \<subseteq> set (columns df)"
  shows "(ids \<noteq> [] \<and> distinct ids \<and> distinct (map row_id (rows df)) \<longrightarrow>
            (\<exists>extracted warnings.
               select_rows df (Some ids) = Inr (extracted, warnings)
               \<and> map row_id extracted = map Some (present_ids df ids)
               \<and> written (extract_csv_data (Inr df) output_file (Some ids) ''json'')
                   = [(output_file, JsonArray extracted)]))
         \<and> select_rows df (Some []) = Inr (map project (rows df), [])
         \<and> written (extract_csv_data (Inr df) output_file (Some []) ''json'')
             = [(output_file, JsonArray (map project (rows df)))]
         \<and> (\<not> distinct ids \<longrightarrow>
              extract_csv_data (Inr df) output_file (Some ids) output_format
                = \<lparr>written = [], console = [Failure CategoriesNotUnique],
                   ending = Returned\<rparr>)"
proof -
  have json: "py_lower ''json'' = ''json''" by code_simp
  have no_missing: "filter (\<lambda>col. col \<notin> set (columns df)) required_columns = []"
    using assms by (auto simp: filter_empty_conv)
  have ordered: "\<exists>extracted warnings.
      select_rows df (Some ids) = Inr (extracted, warnings)
      \<and> map row_id extracted = map Some (present_ids df ids)
      \<and> written (extract_csv_data (Inr df) output_file (Some ids) ''json'')
          = [(output_file, JsonArray extracted)]"
    if ne: "ids \<noteq> []" and ids: "distinct ids" and src: "distinct (map row_id (rows df))"
  proof -
    from select_rows_ordered [OF assms ne ids src] obtain extracted
      where sel: "select_rows df (Some ids)
          = Inr (extracted,
                 if absent_ids df ids \<noteq> [] then [Warning (absent_ids df ids)] else [])"
        and order: "map row_id extracted = map Some (present_ids df ids)"
      by blast
    from sel json have "written (extract_csv_data (Inr df) output_file (Some ids) ''json'')
        = [(output_file, JsonArray extracted)]"
      by (simp add: extract_csv_data_def del: py_lower.simps)
    with sel order show ?thesis by blast
  qed
  have empty: "select_rows df (Some []) = Inr (map project (rows df), [])"
    by (simp add: select_rows_def no_missing)
  from empty json
  have empty_written: "written (extract_csv_data (Inr df) output_file (Some []) ''json'')
      = [(output_file, JsonArray (map project (rows df)))]"
    by (simp add: extract_csv_data_def del: py_lower.simps)
  have repeated: "extract_csv_data (Inr df) output_file (Some ids) output_format
      = \<lparr>written = [], console = [Failure CategoriesNotUnique], ending = Returned\<rparr>"
    if rep: "\<not> distinct ids"
  proof -
    from rep have "ids \<noteq> []" by auto
    with rep have "select_rows df (Some ids) = Inl CategoriesNotUnique"
      by (simp add: select_rows_def no_missing)
    then show ?thesis by (simp add: extract_csv_data_def)
  qed
  from ordered empty empty_written repeated show ?thesis by blast
qed

theorem selector_order_witness:
  "(\<exists>extracted warnings.
      select_rows sample_table (Some [2201, 141, 9999, 32]) = Inr (extracted, warnings)
      \<and> map row_id extracted = [Some 2201, Some 141, Some 32]
      \<and> written (extract_csv_data (Inr sample_table) ''selected_questions.json''
            (Some [2201, 141, 9999, 32]) ''json'')
          = [(''selected_questions.json'', JsonArray extracted)])
   \<and> extract_csv_data (Inr sample_table) ''selected_questions.json'' (Some [141, 141])
       ''json''
     = \<lparr>written = [], console = [Failure CategoriesNotUnique], ending = Returned\<rparr>"
proof -
  have good: "[2201, 141, 9999, 32] \<noteq> ([] :: int list) \<and> distinct [2201, 141, 9999, 32 :: int]
      \<and> distinct (map row_id (rows sample_table))"
    by (simp add: sample_table_ids)
  have present: "present_ids sample_table [2201, 141, 9999, 32] = [2201, 141, 32]"
    by (simp add: present_ids_def sample_table_ids)
  from selector_order [OF sample_table_columns, of "[2201, 141, 9999, 32]"
      "''selected_questions.json''" "''json''"] good
  have "\<exists>extracted warnings.
      select_rows sample_table (Some [2201, 141, 9999, 32]) = Inr (extracted, warnings)
      \<and> map row_id extracted = map Some (present_ids sample_table [2201, 141, 9999, 32])
      \<and> written (extract_csv_data (Inr sample_table) ''selected_questions.json''
            (Some [2201, 141, 9999, 32]) ''json'')
          = [(''selected_questions.json'', JsonArray extracted)]"
    by blast
  then have first: "\<exists>extracted warnings.
      select_rows sample_table (Some [2201, 141, 9999, 32]) = Inr (extracted, warnings)
      \<and> map row_id extracted = [Some 2201, Some 141, Some 32]
      \<and> written (extract_csv_data (Inr sample_table) ''selected_questions.json''
            (Some [2201, 141, 9999, 32]) ''json'')
          = [(''selected_questions.json'', JsonArray extracted)]"
    unfolding present by simp
  have rep: "\<not> distinct [141, 141 :: int]" by simp
  from selector_order [OF sample_table_columns, of "[141, 141]"
      "''selected_questions.json''" "''json''"] rep
  have "extract_csv_data (Inr sample_table) ''selected_questions.json'' (Some [141, 141])
       ''json''
     = \<lparr>written = [], console = [Failure CategoriesNotUnique], ending = Returned\<rparr>"
    by blast
  with first show ?thesis by (intro conjI)
qed

text \<open>
  The claim as stated fails for two target lists. For the empty list the selection is
  skipped and every row is kept in source order; for a list that repeats an identifier
  the categorical cannot be built and nothing is selected.
\<close>

theorem selector_order_counterexample:
  "select_rows sample_table (Some [])
     = Inr ([selected_row 32 ''Q1'', selected_row 141 ''Q2'', selected_row 2201 ''Q3'',
             selected_row 84 ''Q4''], [])
   \<and> present_ids sample_table [] = []
   \<and> select_rows sample_table (Some [141, 141]) = Inl CategoriesNotUnique
   \<and> present_ids sample_table [141, 141] = [141, 141]"
proof -
  have no_missing: "filter (\<lambda>col. col \<notin> set (columns sample_table)) required_columns = []"
    using sample_table_columns by (auto simp: filter_empty_conv)
  have "select_rows sample_table (Some [])
      = Inr ([selected_row 32 ''Q1'', selected_row 141 ''Q2'', selected_row 2201 ''Q3'',
              selected_row 84 ''Q4''], [])"
    by (simp add: select_rows_def no_missing) (simp add: sample_table_def project_source_row)
  moreover have "select_rows sample_table (Some [141, 141]) = Inl CategoriesNotUnique"
    by (simp add: select_rows_def no_missing)
  moreover have "present_ids sample_table [141, 141] = [141, 141]"
    by (simp add: present_ids_def sample_table_ids)
  ultimately show ?thesis by (simp add: present_ids_def)
qed

subsection \<open>Missing columns\<close>

text \<open>
  Claim C6, as amended. When a required column is absent, the invocation prints one
  error that names exactly the required columns the source lacks, writes no file, and
  returns: the exception is caught inside \<open>extract_csv_data\<close>, so the script ends
  as a run without error does, with exit status 0.
\<close>

theorem missing_columns_abort:
  assumes "\<not> set required_columns \<subseteq> set (columns df)"
  shows "extract_csv_data (Inr df) output_file target_data_ids output_format
           = \<lparr>written = [],
              console = [Failure (MissingColumns
                           (filter (\<lambda>col. col \<notin> set (columns df)) required_columns))],
              ending = Returned\<rparr>
         \<and> set (filter (\<lambda>col. col \<notin> set (columns df)) required_columns)
             = set required_columns - set (columns df)
         \<and> filter (\<lambda>col. col \<notin> set (columns df)) required_columns \<noteq> []"
proof -
  from assms have ne: "filter (\<lambda>col. col \<notin> set (columns df)) required_columns \<noteq> []"
    by (auto simp: filter_empty_conv)
  then have "select_rows df target_data_ids
      = Inl (MissingColumns (filter (\<lambda>col. col \<notin> set (columns df)) required_columns))"
    by (simp add: select_rows_def)
  then have "extract_csv_data (Inr df) output_file target_data_ids output_format
      = \<lparr>written = [],
         console = [Failure (MissingColumns
                      (filter (\<lambda>col. col \<notin> set (columns df)) required_columns))],
         ending = Returned\<rparr>"
    by (simp add: extract_csv_data_def)
  with ne show ?thesis by auto
qed

theorem missing_columns_abort_witness:
  "extract_csv_data (Inr narrow_table) ''selected_questions.json'' (Some [32]) ''json''
     = \<lparr>written = [],
        console = [Failure (MissingColumns [''tokens'', ''token_count''])],
        ending = Returned\<rparr>"
proof -
  have "\<not> set required_columns \<subseteq> set (columns narrow_table)"
    by (simp add: required_columns_def narrow_table_def)
  from missing_columns_abort [OF this, of "''selected_questions.json''" "Some [32]" "''json''"]
  show ?thesis
    by (simp add: required_columns_def narrow_table_def)
qed

text \<open>
  The claim as stated fails in its second part: on the table without \<open>tokens\<close> and
  \<open>token_count\<close> the script prints the error, its \<open>main\<close> returns, and the exit
  status is 0.
\<close>

theorem missing_columns_abort_counterexample:
  "console (selector_main (Inr narrow_table) ''selected_questions.json'')
     = [Failure (MissingColumns [''tokens'', ''token_count''])]
   \<and> ending (selector_main (Inr narrow_table) ''selected_questions.json'') = Returned
   \<and> exit_status (ending (selector_main (Inr narrow_table) ''selected_questions.json''))
       = 0"
  by (simp add: selector_main_def extract_csv_data_def select_rows_def required_columns_def
        narrow_table_def)

subsection \<open>Identifiers the source does not hold\<close>

text \<open>
  Claim C8, as amended. For a target list that is not empty and repeats no
  identifier, and a source that has the required columns and repeats no identifier,
  the identifiers of the list that the source does not hold are printed in one
  warning (none is printed when there is none), no selected record carries one of
  them, the selection is written all the same, and the selected records are fewer
  than the target list by the number of these identifiers.
\<close>

theorem missing_identifiers:
  assumes "set required_columns \<subseteq> set (columns df)"
    and "ids \<noteq> []" and "distinct ids"
    and "distinct (map row_id (rows df))"
  shows "\<exists>extracted.
           extract_csv_data (Inr df) output_file (Some ids) output_format
             = \<lparr>written = [(output_file,
                             if py_lower output_format = ''json''
                             then JsonArray extracted else CsvTable extracted)],
                console = (if absent_ids df ids \<noteq> [] then [Warning (absent_ids df ids)]
                           else [])
                          @ [Extracted (length extracted)],
                ending = Returned\<rparr>
           \<and> (\<forall>i \<in> set (absent_ids df ids). Some i \<notin> set (map row_id extracted))
           \<and> length extracted + length (absent_ids df ids) = length ids"
proof -
  from select_rows_ordered [OF assms] obtain extracted
    where sel: "select_rows df (Some ids)
        = Inr (extracted,
               if absent_ids df ids \<noteq> [] then [Warning (absent_ids df ids)] else [])"
      and order: "map row_id extracted = map Some (present_ids df ids)"
    by blast
  from sel have run: "extract_csv_data (Inr df) output_file (Some ids) output_format
      = \<lparr>written = [(output_file,
                      if py_lower output_format = ''json''
                      then JsonArray extracted else CsvTable extracted)],
         console = (if absent_ids df ids \<noteq> [] then [Warning (absent_ids df ids)] else [])
                   @ [Extracted (length extracted)],
         ending = Returned\<rparr>"
    by (simp add: extract_csv_data_def del: py_lower.simps)
  have none: "\<forall>i \<in> set (absent_ids df ids). Some i \<notin> set (map row_id extracted)"
    unfolding order by (auto simp: absent_ids_def present_ids_def)
  have "length extracted = length (present_ids df ids)"
    using order by (metis length_map)
  then have len: "length extracted + length (absent_ids df ids) = length ids"
    by (simp add: present_absent_length)
  from run none len show ?thesis by blast
qed

theorem missing_identifiers_witness:
  "\<exists>extracted.
     extract_csv_data (Inr sample_table) ''selected_questions.json''
       (Some [2201, 141, 9999, 32]) ''json''
     = \<lparr>written = [(''selected_questions.json'', JsonArray extracted)],
        console = [Warning [9999], Extracted 3],
        ending = Returned\<rparr>"
proof -
  have ne: "[2201, 141, 9999, 32] \<noteq> ([] :: int list)"
    and ids: "distinct [2201, 141, 9999, 32 :: int]" by simp_all
  have src: "distinct (map row_id (rows sample_table))"
    by (simp add: sample_table_ids)
  have absent: "absent_ids sample_table [2201, 141, 9999, 32] = [9999]"
    by (simp add: absent_ids_def sample_table_ids)
  have json: "py_lower ''json'' = ''json''" by code_simp
  from missing_identifiers [OF sample_table_columns ne ids src,
      of "''selected_questions.json''" "''json''"]
  obtain extracted where run: "extract_csv_data (Inr sample_table) ''selected_questions.json''
        (Some [2201, 141, 9999, 32]) ''json''
      = \<lparr>written = [(''selected_questions.json'',
                      if py_lower ''json'' = ''json''
                      then JsonArray extracted else CsvTable extracted)],
         console = (if absent_ids sample_table [2201, 141, 9999, 32] \<noteq> []
                    then [Warning (absent_ids sample_table [2201, 141, 9999, 32])] else [])
                   @ [Extracted (length extracted)],
         ending = Returned\<rparr>"
    and len: "length extracted + length (absent_ids sample_table [2201, 141, 9999, 32])
      = length [2201, 141, 9999, 32 :: int]"
    by blast
  from len have "length extracted = 3" unfolding absent by simp
  with run show ?thesis unfolding absent json by auto
qed

text \<open>
  The claim as stated fails for two target lists. A list that repeats an identifier
  ends the invocation with an error before the warning is reached: nothing is
  reported about the identifier the source does not hold, and nothing is written. For
  the empty list every row of the source is written.
\<close>

theorem missing_identifiers_counterexample:
  "absent_ids sample_table [141, 141, 9999] = [9999]
   \<and> extract_csv_data (Inr sample_table) ''selected_questions.json''
       (Some [141, 141, 9999]) ''json''
     = \<lparr>written = [], console = [Failure CategoriesNotUnique], ending = Returned\<rparr>
   \<and> absent_ids sample_table [] = []
   \<and> console (extract_csv_data (Inr sample_table) ''selected_questions.json'' (Some [])
        ''json'') = [Extracted 4]"
proof -
  have no_missing: "filter (\<lambda>col. col \<notin> set (columns sample_table)) required_columns = []"
    using sample_table_columns by (auto simp: filter_empty_conv)
  have "absent_ids sample_table [141, 141, 9999] = [9999]"
    by (simp add: absent_ids_def sample_table_ids)
  moreover have "extract_csv_data (Inr sample_table) ''selected_questions.json''
       (Some [141, 141, 9999]) ''json''
     = \<lparr>written = [], console = [Failure CategoriesNotUnique], ending = Returned\<rparr>"
    by (simp add: extract_csv_data_def select_rows_def no_missing)
  moreover have "console (extract_csv_data (Inr sample_table) ''selected_questions.json''
      (Some []) ''json'') = [Extracted 4]"
    by (simp add: extract_csv_data_def select_rows_def no_missing del: py_lower.simps)
       (simp add: sample_table_def)
  ultimately show ?thesis by (simp add: absent_ids_def)
qed

end
